theory Spec2Isabelle
  imports Main "HOL-Library.Char_ord" "HOL-Library.List_Lexorder"
begin

section \<open>Python values used by summarize\_test\_results.py\<close>

text \<open>
  The script raises in three ways that matter here: an index out of range
  (\<open>configs[i][j]\<close>, \<open>BUILD_CONFIGS[k]\<close>, \<open>all_configs[i]\<close>), \<open>.add\<close> called on
  a list in \<open>combine_config\<close>, and \<open>.groups\<close> called on the \<open>None\<close> that
  \<open>re.search\<close> returns when the file name does not match.
\<close>

datatype error = IndexError | AttributeError_add | AttributeError_groups | JSONDecodeError | KeyError

text \<open>
  \<open>BUILD_CONFIGS\<close> and \<open>TEST_DEVICES\<close> are imported from
  print\_matrix\_configuration, so they are parameters here: the list of axis names, and
  for each device name the value of its \<open>"type"\<close> entry (\<open>None\<close> for a name that is not a
  key of the table). A Python set of strings is the list of its elements in insertion
  order; the order in which CPython iterates over it depends on the hashes of the
  strings, so it is the third parameter, \<open>set_iter\<close>, applied wherever the script
  iterates over a set.
\<close>

record env =
  BUILD_CONFIGS :: "string list"
  TEST_DEVICES :: "string \<Rightarrow> string option"
  set_iter :: "string list \<Rightarrow> string list"

definition set_add :: "string \<Rightarrow> string list \<Rightarrow> string list" where
  "set_add x s = (if x \<in> set s then s else s @ [x])"

text \<open>A value that is either a string or a list of strings, and a collection that is
  either a set or a list: \<open>combine_config\<close> rebinds \<open>config\<close> from one to the other.\<close>

datatype pyval = Str string | Lst "string list"

datatype coll = PySet "string list" | PyList "string list"

subsection \<open>Formatting\<close>

definition digit_char :: "nat \<Rightarrow> char" where
  "digit_char n = ''0123456789abcdef'' ! n"

text \<open>\<open>"%d" % n\<close> for a length.\<close>

function str_of_nat :: "nat \<Rightarrow> string" where
  "str_of_nat n = (if n < 10 then [digit_char n] else str_of_nat (n div 10) @ [digit_char (n mod 10)])"
  by pat_completeness auto
termination
  by (relation "measure id") auto

declare str_of_nat.simps [simp del]

fun join :: "string \<Rightarrow> string list \<Rightarrow> string" where
  "join sep [] = []"
| "join sep [x] = x"
| "join sep (x # y # ys) = x @ sep @ join sep (y # ys)"

text \<open>
  \<open>repr\<close> of a string, for code points below 256: the quote is \<open>"\<close> when the string
  holds \<open>'\<close> and no \<open>"\<close>, and \<open>'\<close> otherwise; the backslash and the chosen quote are
  escaped, tab, newline and carriage return are written \<open>\t\<close>, \<open>\n\<close>, \<open>\r\<close>, and the
  other characters that are not printable as \<open>\xNN\<close>.
\<close>

definition printable :: "char \<Rightarrow> bool" where
  "printable c = (let n = (of_char c :: nat) in 32 \<le> n \<and> n < 127 \<or> 161 \<le> n \<and> n \<noteq> 173)"

definition repr_char :: "char \<Rightarrow> char \<Rightarrow> string" where
  "repr_char q c =
     (if c = CHR 0x5C then [CHR 0x5C, CHR 0x5C]
      else if c = q then [CHR 0x5C, q]
      else if c = CHR 0x09 then [CHR 0x5C, CHR ''t'']
      else if c = CHR 0x0A then [CHR 0x5C, CHR ''n'']
      else if c = CHR 0x0D then [CHR 0x5C, CHR ''r'']
      else if printable c then [c]
      else [CHR 0x5C, CHR ''x'', digit_char (of_char c div 16), digit_char (of_char c mod 16)])"

definition repr_str :: "string \<Rightarrow> string" where
  "repr_str s =
     (let q = (if CHR 0x27 \<in> set s \<and> CHR 0x22 \<notin> set s then CHR 0x22 else CHR 0x27)
      in [q] @ concat (map (repr_char q) s) @ [q])"

text \<open>\<open>str(conf)\<close>: a string is itself, a list is the \<open>repr\<close> of its elements between
  brackets.\<close>

fun py_str :: "pyval \<Rightarrow> string" where
  "py_str (Str s) = s"
| "py_str (Lst xs) = ''['' @ join '', '' (map repr_str xs) @ '']''"

section \<open>Config compaction\<close>

text \<open>\<open>flat_config\<close>: \<open>str\<close> of every element with the single quotes removed, joined by
  one space.\<close>

definition flat_config :: "pyval list \<Rightarrow> string" where
  "flat_config configs = join '' '' (map (\<lambda>conf. filter (\<lambda>c. c \<noteq> CHR 0x27) (py_str conf)) configs)"

text \<open>\<open>x in "real"\<close> on strings is the substring test.\<close>

definition substring :: "string \<Rightarrow> string \<Rightarrow> bool" where
  "substring x y = (\<exists>i \<in> set [0..<Suc (length y)]. take (length x) (drop i y) = x)"

text \<open>The devices of \<open>config_value\<close> whose entry of \<open>TEST_DEVICES\<close> has a type that occurs
  in \<open>ty\<close>.\<close>

definition devices_of_type :: "env \<Rightarrow> string \<Rightarrow> string list \<Rightarrow> string list" where
  "devices_of_type env ty config_value =
     filter (\<lambda>device. case TEST_DEVICES env device of None \<Rightarrow> False | Some t \<Rightarrow> substring t ty) config_value"

definition elems :: "coll \<Rightarrow> string list" where
  "elems c = (case c of PySet s \<Rightarrow> s | PyList l \<Rightarrow> l)"

text \<open>One of the two \<open>if\<close> statements of the device branch: when all the devices of the
  group failed and the group has more than one device, the label of the group is added to
  the set and the devices of the group are dropped. \<open>config\<close> is a list after the first
  of them ran, and \<open>.add\<close> on a list raises.\<close>

definition group_devices :: "env \<Rightarrow> string \<Rightarrow> string list \<Rightarrow> coll \<Rightarrow> error + coll" where
  "group_devices env what devices config =
     (if length devices > 1 \<and> set devices \<subseteq> set (elems config) then
        (case config of
           PySet s \<Rightarrow>
             Inr (PyList (filter (\<lambda>x. x \<notin> set devices)
               (set_iter env (set_add (''All '' @ str_of_nat (length devices) @ '' '' @ what) s))))
         | PyList l \<Rightarrow> Inl AttributeError_add)
      else Inr config)"

definition combine_config :: "env \<Rightarrow> string list \<Rightarrow> string list \<Rightarrow> nat \<Rightarrow> error + string list" where
  "combine_config env config config_value k =
     (if k < length (BUILD_CONFIGS env) then
        let config_name = BUILD_CONFIGS env ! k;
            combined =
              (if length config_value > 1 \<and> length config = length config_value then
                 Inr (PyList [''All '' @ str_of_nat (length config_value) @ '' '' @ config_name])
               else if config_name = ''Test Device(s)'' then
                 (case group_devices env ''FTL Devices''
                         (devices_of_type env ''real'' config_value) (PySet config) of
                    Inl e \<Rightarrow> Inl e
                  | Inr c \<Rightarrow> group_devices env ''Virtual Devices''
                         (devices_of_type env ''virtual'' config_value) c)
               else Inr (PySet config))
        in case combined of
             Inl e \<Rightarrow> Inl e
           | Inr (PySet s) \<Rightarrow>
               if length config_value > 1 \<and> set config = set s then
                 Inr [str_of_nat (length s) @ ''/'' @ str_of_nat (length config_value) @ '' ''
                      @ config_name @ '': '' @ flat_config (map Str (set_iter env s))]
               else Inr (set_iter env s)
           | Inr (PyList l) \<Rightarrow> Inr l
      else Inl IndexError)"

text \<open>
  \<open>reorganize_configs\<close>. One set per axis of \<open>BUILD_CONFIGS\<close>; the inner loop
  \<open>for j in range(len(BUILD_CONFIGS)): reorganize_configs[j].add(configs[i][j])\<close> walks
  the sets and the vector together and raises IndexError when the vector is shorter than
  the list of axes.
\<close>

fun add_config :: "string list list \<Rightarrow> string list \<Rightarrow> error + string list list" where
  "add_config [] config = Inr []"
| "add_config (s # sets) [] = Inl IndexError"
| "add_config (s # sets) (c # config) =
     (case add_config sets config of Inl e \<Rightarrow> Inl e | Inr r \<Rightarrow> Inr (set_add c s # r))"

fun add_configs :: "string list list \<Rightarrow> string list list \<Rightarrow> error + string list list" where
  "add_configs sets [] = Inr sets"
| "add_configs sets (config # configs) =
     (case add_config sets config of Inl e \<Rightarrow> Inl e | Inr sets' \<Rightarrow> add_configs sets' configs)"

definition reorganize_configs :: "env \<Rightarrow> string list list \<Rightarrow> error + string list list" where
  "reorganize_configs env configs =
     (if configs = [] then Inr []
      else case add_configs (replicate (length (BUILD_CONFIGS env)) []) configs of
             Inl e \<Rightarrow> Inl e
           | Inr sets \<Rightarrow> Inr (filter (\<lambda>config. config \<noteq> []) sets))"

text \<open>\<open>combine_configs\<close>: the loop \<open>for i in range(len(error_configs))\<close>, from index
  \<open>i\<close> on.\<close>

fun combine_configs_from ::
  "env \<Rightarrow> nat \<Rightarrow> string list list \<Rightarrow> string list list \<Rightarrow> error + string list list" where
  "combine_configs_from env i [] all_configs = Inr []"
| "combine_configs_from env i (config # error_configs) all_configs =
     (if i < length all_configs then
        (case combine_config env config (all_configs ! i) i of
           Inl e \<Rightarrow> Inl e
         | Inr r \<Rightarrow>
             (case combine_configs_from env (Suc i) error_configs all_configs of
                Inl e \<Rightarrow> Inl e
              | Inr rs \<Rightarrow> Inr (r # rs)))
      else Inl IndexError)"

definition combine_configs ::
  "env \<Rightarrow> string list list \<Rightarrow> string list list \<Rightarrow> error + string list list" where
  "combine_configs env error_configs all_configs = combine_configs_from env 0 error_configs all_configs"

section \<open>Aggregation\<close>

text \<open>
  \<open>log_data\<close> maps a test application to the vectors of its build errors, test errors,
  test failures and flaky tests. A list that \<open>summarize_logs\<close> never created is empty
  here: \<open>reorganize_log\<close> only asks whether \<open>errors.get(...)\<close> is truthy. Dictionaries
  are association lists in insertion order.
\<close>

record app_errors =
  build :: "string list list"
  test_errors :: "string list list"
  test_failures :: "string list list"
  test_flakiness :: "string list list"

record tested_configs =
  build_configs :: "string list list"
  test_configs :: "string list list"

type_synonym log_results = "(string \<times> (string \<times> string list) list) list"

definition setdefault :: "'k \<Rightarrow> 'v \<Rightarrow> ('k \<times> 'v) list \<Rightarrow> ('k \<times> 'v) list" where
  "setdefault k v d = (if k \<in> fst ` set d then d else d @ [(k, v)])"

text \<open>\<open>log_results.setdefault(testapp, {}).setdefault(label, [])\<close>\<close>

definition add_label :: "string \<Rightarrow> string \<Rightarrow> log_results \<Rightarrow> log_results" where
  "add_label testapp label log_results =
     map (\<lambda>(t, configs). if t = testapp then (t, setdefault label [] configs) else (t, configs))
       (setdefault testapp [] log_results)"

text \<open>One of the four blocks of \<open>reorganize_log\<close>: they differ in the list they read,
  in the universe and in the two leading labels.\<close>

definition category_label ::
  "env \<Rightarrow> string \<Rightarrow> string \<Rightarrow> string list list \<Rightarrow> string list list \<Rightarrow> error + string" where
  "category_label env kind what configs all_configs =
     (case reorganize_configs env configs of
        Inl e \<Rightarrow> Inl e
      | Inr reorganized_configs \<Rightarrow>
          (case combine_configs env reorganized_configs all_configs of
             Inl e \<Rightarrow> Inl e
           | Inr combined_configs \<Rightarrow>
               Inr (flat_config (map Lst ([kind] # [what] # combined_configs)))))"

definition add_category ::
  "env \<Rightarrow> string \<Rightarrow> string \<Rightarrow> string \<Rightarrow> string list list \<Rightarrow> string list list
     \<Rightarrow> log_results \<Rightarrow> error + log_results" where
  "add_category env testapp kind what configs all_configs log_results =
     (if configs = [] then Inr log_results
      else case category_label env kind what configs all_configs of
             Inl e \<Rightarrow> Inl e
           | Inr label \<Rightarrow> Inr (add_label testapp label log_results))"

fun reorganize_log_from ::
  "env \<Rightarrow> tested_configs \<Rightarrow> (string \<times> app_errors) list \<Rightarrow> log_results \<Rightarrow> error + log_results" where
  "reorganize_log_from env all_tested_configs [] log_results = Inr log_results"
| "reorganize_log_from env all_tested_configs ((testapp, errors) # log_data) log_results =
     (case add_category env testapp ''BUILD'' ''ERROR'' (build errors)
             (build_configs all_tested_configs) log_results of
        Inl e \<Rightarrow> Inl e
      | Inr r1 \<Rightarrow>
     (case add_category env testapp ''TEST'' ''ERROR'' (test_errors errors)
             (test_configs all_tested_configs) r1 of
        Inl e \<Rightarrow> Inl e
      | Inr r2 \<Rightarrow>
     (case add_category env testapp ''TEST'' ''FAILURE'' (test_failures errors)
             (test_configs all_tested_configs) r2 of
        Inl e \<Rightarrow> Inl e
      | Inr r3 \<Rightarrow>
     (case add_category env testapp ''TEST'' ''FLAKINESS'' (test_flakiness errors)
             (test_configs all_tested_configs) r3 of
        Inl e \<Rightarrow> Inl e
      | Inr r4 \<Rightarrow> reorganize_log_from env all_tested_configs log_data r4))))"

definition reorganize_log ::
  "env \<Rightarrow> (string \<times> app_errors) list \<Rightarrow> tested_configs \<Rightarrow> error + log_results" where
  "reorganize_log env log_data all_tested_configs =
     reorganize_log_from env all_tested_configs log_data []"

definition reorganize_all_tested_configs :: "env \<Rightarrow> tested_configs \<Rightarrow> error + tested_configs" where
  "reorganize_all_tested_configs env tested =
     (case reorganize_configs env (build_configs tested) of
        Inl e \<Rightarrow> Inl e
      | Inr b \<Rightarrow>
          (case reorganize_configs env (test_configs tested) of
             Inl e \<Rightarrow> Inl e
           | Inr t \<Rightarrow> Inr \<lparr>build_configs = b, test_configs = t\<rparr>))"

section \<open>Rendering\<close>

definition LIST_MAX :: nat where
  "LIST_MAX = 3"

definition TESTAPPS_HEADER :: string where
  "TESTAPPS_HEADER = ''Failures''"

definition CONFIGS_HEADER :: string where
  "CONFIGS_HEADER = ''Configs''"

definition MISSING_LOG :: string where
  "MISSING_LOG = ''missing_log''"

definition LOG_HEADER :: string where
  "LOG_HEADER = ''INTEGRATION TEST FAILURES''"

definition DEFAULT_LIST_SEPARATOR :: string where
  "DEFAULT_LIST_SEPARATOR = '', ''"

definition ljust :: "nat \<Rightarrow> string \<Rightarrow> string" where
  "ljust width s = s @ replicate (width - length s) CHR '' ''"

text \<open>
  \<open>re.sub(r'\b \b', space_char, s)\<close> replaces every space that stands between two word
  characters. For code points below 256 the word characters are the ASCII letters and
  digits, the underscore, and the letters and numeric characters of Latin-1.
\<close>

definition word_char :: "char \<Rightarrow> bool" where
  "word_char c =
     (let n = (of_char c :: nat) in
        48 \<le> n \<and> n \<le> 57 \<or> 65 \<le> n \<and> n \<le> 90 \<or> n = 95 \<or> 97 \<le> n \<and> n \<le> 122
        \<or> n = 170 \<or> n = 178 \<or> n = 179 \<or> n = 181 \<or> n = 185 \<or> n = 186
        \<or> 188 \<le> n \<and> n \<le> 190 \<or> 192 \<le> n \<and> n \<le> 214 \<or> 216 \<le> n \<and> n \<le> 246 \<or> 248 \<le> n)"

fun sub_spaces_from :: "string \<Rightarrow> bool \<Rightarrow> string \<Rightarrow> string" where
  "sub_spaces_from space_char after_word [] = []"
| "sub_spaces_from space_char after_word (c # cs) =
     (if c = CHR '' '' \<and> after_word \<and> (case cs of [] \<Rightarrow> False | d # _ \<Rightarrow> word_char d)
      then space_char @ sub_spaces_from space_char (word_char c) cs
      else c # sub_spaces_from space_char (word_char c) cs)"

definition sub_spaces :: "string \<Rightarrow> string \<Rightarrow> string" where
  "sub_spaces space_char s = sub_spaces_from space_char False s"

text \<open>\<open>format_result\<close>. \<open>config_set\<close> is a set of strings that is only counted and
  sorted.\<close>

definition format_entry :: "string \<Rightarrow> string \<Rightarrow> string \<times> string list \<Rightarrow> string" where
  "format_entry space_char list_separator entry =
     (case entry of (config, tests) \<Rightarrow>
        if length tests > 0 then
          config @ ''<details><summary>('' @ str_of_nat (length tests) @ '' failed tests)</summary>''
            @ join list_separator (sort (map (\<lambda>test. space_char @ space_char @ test) tests))
            @ ''</details>''
        else config @ list_separator)"

definition format_result ::
  "(string \<times> string list) list \<Rightarrow> string \<Rightarrow> string \<Rightarrow> nat \<Rightarrow> string" where
  "format_result config_tests space_char list_separator justify =
     (let config_set = fold set_add (map (format_entry space_char list_separator) config_tests) []
      in if length config_set > LIST_MAX then
           ''<details><summary>('' @ str_of_nat (length config_set) @ '' items)</summary>''
             @ concat (sort config_set) @ ''</details>''
         else ljust justify (concat (sort config_set)))"

text \<open>\<open>print_table\<close>. A row is \<open>"| %s | %s |"\<close> filled with the two columns;
  \<open>log_results.pop(MISSING_LOG)\<close> removes the entry before the other rows are printed
  in the order of the sorted keys.\<close>

definition table_row :: "string \<Rightarrow> string \<Rightarrow> string" where
  "table_row c1 c2 = ''| '' @ c1 @ '' | '' @ c2 @ '' |''"

definition rule_row :: "string \<Rightarrow> string \<Rightarrow> string" where
  "rule_row h1 h2 =
     ''|-'' @ map (\<lambda>c. if c = CHR ''|'' then c else CHR ''-'') h1
     @ ''-|-'' @ map (\<lambda>c. if c = CHR ''|'' then c else CHR ''-'') h2 @ ''-|''"

definition result_row ::
  "nat \<Rightarrow> nat \<Rightarrow> string \<Rightarrow> string \<Rightarrow> string \<times> (string \<times> string list) list \<Rightarrow> string" where
  "result_row testapps_width configs_width space_char list_separator entry =
     (case entry of (testapp, config_tests) \<Rightarrow>
        table_row (sub_spaces space_char (ljust testapps_width testapp))
          (format_result config_tests space_char list_separator configs_width))"

definition print_table ::
  "log_results \<Rightarrow> nat \<Rightarrow> nat \<Rightarrow> string \<Rightarrow> string \<Rightarrow> string list" where
  "print_table log_results testapps_width configs_width space_char list_separator =
     (let h1 = sub_spaces space_char (ljust testapps_width TESTAPPS_HEADER);
          h2 = sub_spaces space_char (ljust configs_width CONFIGS_HEADER);
          missing = (case map_of log_results MISSING_LOG of
                       None \<Rightarrow> []
                     | Some config_tests \<Rightarrow>
                         [result_row testapps_width configs_width space_char list_separator
                            (MISSING_LOG, config_tests)]);
          popped = filter (\<lambda>entry. fst entry \<noteq> MISSING_LOG) log_results
      in [table_row h1 h2, rule_row h1 h2] @ missing
         @ map (result_row testapps_width configs_width space_char list_separator)
             (sort_key fst popped))"

definition print_markdown_table :: "log_results \<Rightarrow> string list" where
  "print_markdown_table log_results = print_table log_results 0 0 ''&nbsp;'' ''<br/>''"

text \<open>\<open>print_log\<close>: the lines of one test application, and all of them without the
  first blank line.\<close>

definition log_config_lines :: "string \<times> string list \<Rightarrow> string list" where
  "log_config_lines entry =
     (case entry of (config, extra) \<Rightarrow>
        (''  - '' @ config)
        # (if extra \<noteq> [] then [''    - failed tests: '' @ py_str (Lst extra)] else []))"

definition log_testapp_lines :: "string \<times> (string \<times> string list) list \<Rightarrow> string list" where
  "log_testapp_lines entry =
     (case entry of (testapps, configs) \<Rightarrow>
        ['''', testapps @ '':'']
        @ (if length configs > 0
           then [''  Errors and Failures ('' @ str_of_nat (length configs) @ ''):''] else [])
        @ concat (map log_config_lines configs))"

definition print_log :: "log_results \<Rightarrow> string list" where
  "print_log log_results = drop 1 (concat (map log_testapp_lines log_results))"

text \<open>The rule of \<open>print_github_log\<close> is made of the character U+2014, written here as
  its three bytes in UTF-8; it is the only character of the script above code point 255.\<close>

definition EM_DASH :: string where
  "EM_DASH = [CHR 0xE2, CHR 0x80, CHR 0x94]"

definition print_github_log :: "log_results \<Rightarrow> string list" where
  "print_github_log log_results =
     [join ''%0A''
        ([''::error ::'' @ LOG_HEADER, concat (replicate (length LOG_HEADER) EM_DASH), '''']
         @ print_log log_results)]"

section \<open>Reading the logs\<close>

definition BUILD_FILE_PATTERN :: string where
  "BUILD_FILE_PATTERN = ''build-results-*.log.json''"

definition TEST_FILE_PATTERN :: string where
  "TEST_FILE_PATTERN = ''test-results-*.log.json''"

text \<open>\<open>os.path.join(dir, pattern)\<close> on a POSIX system, for a pattern that does not
  start with a slash.\<close>

definition path_join :: "string \<Rightarrow> string \<Rightarrow> string" where
  "path_join dir p = (if dir = [] \<or> last dir = CHR ''/'' then dir @ p else dir @ ''/'' @ p)"

text \<open>
  \<open>re.escape(path).replace("\\*", "(.*)")\<close> is a regular expression made of the literal
  pieces of the path between its stars, with a group \<open>(.*)\<close> for every star. It is
  represented by the list of the pieces. \<open>match_at\<close> matches it at the start of a
  string and returns the groups: a group takes as many characters other than newline
  as it can and gives them back one at a time while the rest does not match.
  \<open>re_search\<close> tries every start from the left.
\<close>

fun split_on :: "char \<Rightarrow> string \<Rightarrow> string list" where
  "split_on c [] = [[]]"
| "split_on c (x # xs) =
     (if x = c then [] # split_on c xs
      else case split_on c xs of [] \<Rightarrow> [[x]] | seg # segs \<Rightarrow> (x # seg) # segs)"

fun match_at :: "string list \<Rightarrow> string \<Rightarrow> string list option"
  and match_group :: "string list \<Rightarrow> string \<Rightarrow> nat \<Rightarrow> string list option" where
  "match_at [] s = Some []"
| "match_at (seg # segs) s =
     (if take (length seg) s = seg then
        (if segs = [] then Some []
         else match_group segs (drop (length seg) s)
                (length (takeWhile (\<lambda>c. c \<noteq> CHR 0x0A) (drop (length seg) s))))
      else None)"
| "match_group segs s 0 =
     (case match_at segs s of Some groups \<Rightarrow> Some ([] # groups) | None \<Rightarrow> None)"
| "match_group segs s (Suc k) =
     (case match_at segs (drop (Suc k) s) of
        Some groups \<Rightarrow> Some (take (Suc k) s # groups)
      | None \<Rightarrow> match_group segs s k)"

fun re_search :: "string list \<Rightarrow> string \<Rightarrow> string list option" where
  "re_search segs [] = match_at segs []"
| "re_search segs (c # cs) =
     (case match_at segs (c # cs) of Some groups \<Rightarrow> Some groups | None \<Rightarrow> re_search segs cs)"

text \<open>\<open>str.split()\<close> splits at runs of whitespace and drops empty pieces.\<close>

definition is_space :: "char \<Rightarrow> bool" where
  "is_space c = (c \<in> set [CHR 0x09, CHR 0x0A, CHR 0x0B, CHR 0x0C, CHR 0x0D, CHR 0x1C, CHR 0x1D,
                          CHR 0x1E, CHR 0x1F, CHR 0x20, CHR 0x85, CHR 0xA0])"

fun split_from :: "string \<Rightarrow> string \<Rightarrow> string list" where
  "split_from word [] = (if word = [] then [] else [word])"
| "split_from word (c # cs) =
     (if is_space c then (if word = [] then split_from [] cs else word # split_from [] cs)
      else split_from (word @ [c]) cs)"

definition split :: "string \<Rightarrow> string list" where
  "split s = split_from [] s"

definition get_configs_from_file_name :: "string \<Rightarrow> string list \<Rightarrow> error + string list" where
  "get_configs_from_file_name file_name file_name_re =
     (case re_search file_name_re file_name of
        None \<Rightarrow> Inl AttributeError_groups
      | Some [] \<Rightarrow> Inl IndexError
      | Some (matrix # _) \<Rightarrow>
          (let configs = split (map (\<lambda>c. if c = CHR ''-'' then CHR '' '' else c) matrix)
           in Inr (if ''latest'' \<in> set configs
                   then filter (\<lambda>config. config \<noteq> ''latest'') configs else configs)))"

text \<open>
  A log file as \<open>glob\<close> returns and \<open>open\<close> reads it: its path, and its text, which
  either holds \<open>__SUMMARY_MISSING__\<close>, or is a JSON object, given by the keys of the
  object under each of its top-level keys, or is not JSON.
\<close>

datatype log_text = SUMMARY_MISSING | Json "(string \<times> string list) list" | Malformed

record log_file =
  file_name :: string
  log_text :: log_text

record summary_state =
  success_or_only_flakiness :: bool
  log_data :: "(string \<times> app_errors) list"
  all_tested_configs :: tested_configs

definition no_errors :: app_errors where
  "no_errors = \<lparr>build = [], test_errors = [], test_failures = [], test_flakiness = []\<rparr>"

text \<open>\<open>log_data.setdefault(testapp, {}) ... .append(configs)\<close>, the update of the entry
  being \<open>upd\<close>.\<close>

definition record_in ::
  "(app_errors \<Rightarrow> app_errors) \<Rightarrow> string \<Rightarrow> (string \<times> app_errors) list \<Rightarrow> (string \<times> app_errors) list" where
  "record_in upd testapp data =
     map (\<lambda>(t, errors). if t = testapp then (t, upd errors) else (t, errors))
       (setdefault testapp no_errors data)"

definition failed :: "(app_errors \<Rightarrow> app_errors) \<Rightarrow> string \<Rightarrow> summary_state \<Rightarrow> summary_state" where
  "failed upd testapp st =
     st\<lparr>success_or_only_flakiness := False, log_data := record_in upd testapp (log_data st)\<rparr>"

definition flaky :: "(app_errors \<Rightarrow> app_errors) \<Rightarrow> string \<Rightarrow> summary_state \<Rightarrow> summary_state" where
  "flaky upd testapp st = st\<lparr>log_data := record_in upd testapp (log_data st)\<rparr>"

definition read_build_log :: "string list \<Rightarrow> log_file \<Rightarrow> summary_state \<Rightarrow> error + summary_state" where
  "read_build_log build_log_name_re f st =
     (case get_configs_from_file_name (file_name f) build_log_name_re of
        Inl e \<Rightarrow> Inl e
      | Inr configs \<Rightarrow>
          (let upd = (\<lambda>errors. errors\<lparr>build := build errors @ [configs]\<rparr>);
               st1 = st\<lparr>all_tested_configs := (all_tested_configs st)
                        \<lparr>build_configs := build_configs (all_tested_configs st) @ [configs]\<rparr>\<rparr>
           in case log_text f of
                SUMMARY_MISSING \<Rightarrow> Inr (failed upd MISSING_LOG st1)
              | Malformed \<Rightarrow> Inl JSONDecodeError
              | Json log_reader_data \<Rightarrow>
                  (case map_of log_reader_data ''errors'' of
                     None \<Rightarrow> Inl KeyError
                   | Some testapps \<Rightarrow> Inr (fold (failed upd) testapps st1))))"

definition read_test_log :: "string list \<Rightarrow> log_file \<Rightarrow> summary_state \<Rightarrow> error + summary_state" where
  "read_test_log test_log_name_re f st =
     (case get_configs_from_file_name (file_name f) test_log_name_re of
        Inl e \<Rightarrow> Inl e
      | Inr configs \<Rightarrow>
          (let st1 = st\<lparr>all_tested_configs := (all_tested_configs st)
                        \<lparr>test_configs := test_configs (all_tested_configs st) @ [configs]\<rparr>\<rparr>
           in case log_text f of
                SUMMARY_MISSING \<Rightarrow>
                  Inr (failed (\<lambda>errors. errors\<lparr>test_errors := test_errors errors @ [configs]\<rparr>)
                         MISSING_LOG st1)
              | Malformed \<Rightarrow> Inl JSONDecodeError
              | Json log_reader_data \<Rightarrow>
                  (case map_of log_reader_data ''errors'' of
                     None \<Rightarrow> Inl KeyError
                   | Some errs \<Rightarrow>
                  (case map_of log_reader_data ''failures'' of
                     None \<Rightarrow> Inl KeyError
                   | Some fails \<Rightarrow>
                  (case map_of log_reader_data ''flakiness'' of
                     None \<Rightarrow> Inl KeyError
                   | Some flakes \<Rightarrow>
                       Inr (fold (flaky (\<lambda>errors. errors\<lparr>test_flakiness := test_flakiness errors @ [configs]\<rparr>))
                              flakes
                           (fold (failed (\<lambda>errors. errors\<lparr>test_failures := test_failures errors @ [configs]\<rparr>))
                              fails
                           (fold (failed (\<lambda>errors. errors\<lparr>test_errors := test_errors errors @ [configs]\<rparr>))
                              errs st1))))))))"

fun read_logs ::
  "(log_file \<Rightarrow> summary_state \<Rightarrow> error + summary_state) \<Rightarrow> log_file list \<Rightarrow> summary_state
     \<Rightarrow> error + summary_state" where
  "read_logs read [] st = Inr st"
| "read_logs read (f # fs) st =
     (case read f st of Inl e \<Rightarrow> Inl e | Inr st' \<Rightarrow> read_logs read fs st')"

definition build_log_name_re :: "string \<Rightarrow> string list" where
  "build_log_name_re dir = split_on CHR ''*'' (path_join dir BUILD_FILE_PATTERN)"

definition test_log_name_re :: "string \<Rightarrow> string list" where
  "test_log_name_re dir = split_on CHR ''*'' (path_join dir TEST_FILE_PATTERN)"

text \<open>
  \<open>summarize_logs\<close>. The two lists of files are what the two calls of \<open>glob.glob\<close>
  return. The summary that is returned is also the text that is printed.
\<close>

definition summarize_logs ::
  "env \<Rightarrow> string \<Rightarrow> log_file list \<Rightarrow> log_file list \<Rightarrow> bool \<Rightarrow> bool \<Rightarrow> error + bool \<times> string option" where
  "summarize_logs env dir build_log_files test_log_files markdown github_log =
     (let st0 = \<lparr>success_or_only_flakiness = True, log_data = [],
                 all_tested_configs = \<lparr>build_configs = [], test_configs = []\<rparr>\<rparr>
      in case read_logs (read_build_log (build_log_name_re dir)) build_log_files st0 of
           Inl e \<Rightarrow> Inl e
         | Inr st1 \<Rightarrow>
        (case read_logs (read_test_log (test_log_name_re dir)) test_log_files st1 of
           Inl e \<Rightarrow> Inl e
         | Inr st \<Rightarrow>
             if success_or_only_flakiness st \<and> log_data st = [] then Inr (True, None)
             else
               (case reorganize_all_tested_configs env (all_tested_configs st) of
                  Inl e \<Rightarrow> Inl e
                | Inr tested \<Rightarrow>
               (case reorganize_log env (log_data st) tested of
                  Inl e \<Rightarrow> Inl e
                | Inr log_results \<Rightarrow>
                    (let log_lines =
                           (if markdown then print_markdown_table log_results
                            else if github_log then print_github_log log_results
                            else print_log log_results)
                     in Inr (success_or_only_flakiness st, Some (join [CHR 0x0A] log_lines)))))))"

section \<open>Predicates used in the statements\<close>

text \<open>The name of a log matches the regular expression made from its pattern; and it
  gives a vector with a value for every axis of \<open>BUILD_CONFIGS\<close>.\<close>

definition name_matches :: "string list \<Rightarrow> log_file \<Rightarrow> bool" where
  "name_matches file_name_re f =
     (case get_configs_from_file_name (file_name f) file_name_re of
        Inl e \<Rightarrow> False | Inr configs \<Rightarrow> True)"

definition covers_axes :: "env \<Rightarrow> string list \<Rightarrow> log_file \<Rightarrow> bool" where
  "covers_axes env file_name_re f =
     (case get_configs_from_file_name (file_name f) file_name_re of
        Inl e \<Rightarrow> False | Inr configs \<Rightarrow> length (BUILD_CONFIGS env) \<le> length configs)"

text \<open>A build log is a JSON object with no entry under \<open>errors\<close>; a test log is a JSON
  object with no entry under \<open>errors\<close>, \<open>failures\<close> and \<open>flakiness\<close>.\<close>

definition quiet_build_log :: "log_file \<Rightarrow> bool" where
  "quiet_build_log f =
     (case log_text f of Json d \<Rightarrow> map_of d ''errors'' = Some [] | _ \<Rightarrow> False)"

definition quiet_test_log :: "log_file \<Rightarrow> bool" where
  "quiet_test_log f =
     (case log_text f of
        Json d \<Rightarrow> map_of d ''errors'' = Some [] \<and> map_of d ''failures'' = Some []
                   \<and> map_of d ''flakiness'' = Some []
      | _ \<Rightarrow> False)"

text \<open>The name of the log of a configuration vector: its values joined by hyphens, in
  the place of the star of the pattern \<open>build-results-*.log.json\<close> or
  \<open>test-results-*.log.json\<close> (\<open>kind\<close> is \<open>build\<close> or \<open>test\<close>).\<close>

definition log_name_of :: "string \<Rightarrow> string \<Rightarrow> string list \<Rightarrow> string" where
  "log_name_of dir kind configs =
     path_join dir (kind @ ''-results-'' @ join ''-'' configs @ ''.log.json'')"

text \<open>A value of a vector taken from a file name: not empty, without hyphen and
  without whitespace.\<close>

definition plain :: "string \<Rightarrow> bool" where
  "plain c = (c \<noteq> [] \<and> (\<forall>ch \<in> set c. ch \<noteq> CHR ''-'' \<and> \<not> is_space ch))"

text \<open>The four categories of a failure, the two leading labels of each, the text they
  make in a label, the aggregated data of a test application with one failing
  configuration in one category, and the universe the category is compared with.\<close>

datatype category = BuildError | TestError | TestFailure | TestFlakiness

fun category_prefix :: "category \<Rightarrow> string" where
  "category_prefix BuildError = ''[BUILD] [ERROR]''"
| "category_prefix TestError = ''[TEST] [ERROR]''"
| "category_prefix TestFailure = ''[TEST] [FAILURE]''"
| "category_prefix TestFlakiness = ''[TEST] [FLAKINESS]''"

fun category_kind :: "category \<Rightarrow> string" where
  "category_kind BuildError = ''BUILD''"
| "category_kind TestError = ''TEST''"
| "category_kind TestFailure = ''TEST''"
| "category_kind TestFlakiness = ''TEST''"

fun category_what :: "category \<Rightarrow> string" where
  "category_what BuildError = ''ERROR''"
| "category_what TestError = ''ERROR''"
| "category_what TestFailure = ''FAILURE''"
| "category_what TestFlakiness = ''FLAKINESS''"

fun single_failure :: "category \<Rightarrow> string list \<Rightarrow> app_errors" where
  "single_failure BuildError v = no_errors\<lparr>build := [v]\<rparr>"
| "single_failure TestError v = no_errors\<lparr>test_errors := [v]\<rparr>"
| "single_failure TestFailure v = no_errors\<lparr>test_failures := [v]\<rparr>"
| "single_failure TestFlakiness v = no_errors\<lparr>test_flakiness := [v]\<rparr>"

fun universe_of :: "category \<Rightarrow> tested_configs \<Rightarrow> string list list" where
  "universe_of BuildError tested = build_configs tested"
| "universe_of TestError tested = test_configs tested"
| "universe_of TestFailure tested = test_configs tested"
| "universe_of TestFlakiness tested = test_configs tested"

text \<open>Every list of failed tests in an aggregated result is empty.\<close>

definition all_empty :: "log_results \<Rightarrow> bool" where
  "all_empty r = (\<forall>(t, configs) \<in> set r. \<forall>entry \<in> set configs. snd entry = [])"

section \<open>Properties of the compaction of one axis\<close>

lemma distinct_same_set_length:
  assumes "distinct xs" and "distinct ys" and "set xs = set ys"
  shows "length xs = length ys"
  using assms by (metis distinct_card)

lemma devices_short:
  "length config_value = 1 \<Longrightarrow> \<not> 1 < length (devices_of_type env ty config_value)"
proof -
  assume "length config_value = 1"
  moreover have "length (devices_of_type env ty config_value) \<le> length config_value"
    unfolding devices_of_type_def by (rule length_filter_le)
  ultimately show ?thesis by simp
qed

text \<open>
  C1 (as amended). On an axis \<open>k\<close> of \<open>BUILD_CONFIGS\<close> whose failing values are all
  the values of the universe: when the universe has at least two values,
  \<open>combine_config\<close> returns the single label \<open>All N <axis-name>\<close>, \<open>N\<close> the size of
  the universe; when it has exactly one value, \<open>combine_config\<close> returns the failing
  set as a list in iteration order, which is the list of that one value whenever
  iterating over the set gives its elements as they are.
\<close>

theorem combine_config_all:
  assumes "k < length (BUILD_CONFIGS env)"
    and "distinct config" and "distinct config_value"
    and "set config = set config_value"
  shows "(1 < length config_value \<longrightarrow>
            combine_config env config config_value k =
              Inr [''All '' @ str_of_nat (length config_value) @ '' '' @ BUILD_CONFIGS env ! k])
       \<and> (length config_value = 1 \<longrightarrow>
            combine_config env config config_value k = Inr (set_iter env config))
       \<and> (length config_value = 1 \<longrightarrow> set_iter env config = config \<longrightarrow>
            combine_config env config config_value k = Inr config)"
proof -
  have len: "length config = length config_value"
    using assms(2-4) by (rule distinct_same_set_length)
  have many: "1 < length config_value \<Longrightarrow>
      combine_config env config config_value k =
        Inr [''All '' @ str_of_nat (length config_value) @ '' '' @ BUILD_CONFIGS env ! k]"
    using assms(1) len by (simp add: combine_config_def)
  have one: "combine_config env config config_value k = Inr (set_iter env config)"
    if h: "length config_value = 1"
  proof -
    have g1: "group_devices env ''FTL Devices''
        (devices_of_type env ''real'' config_value) (PySet config) = Inr (PySet config)"
      using devices_short [OF h] by (simp add: group_devices_def)
    have g2: "group_devices env ''Virtual Devices''
        (devices_of_type env ''virtual'' config_value) (PySet config) = Inr (PySet config)"
      using devices_short [OF h] by (simp add: group_devices_def)
    show ?thesis
      using assms(1) h g1 g2 by (simp add: combine_config_def)
  qed
  from many one show ?thesis by simp
qed

theorem combine_config_all_witness:
  "combine_config \<lparr>BUILD_CONFIGS = [''os''], TEST_DEVICES = (\<lambda>_. None), set_iter = (\<lambda>s. s)\<rparr>
     [''windows'', ''ubuntu'', ''macos''] [''ubuntu'', ''macos'', ''windows''] 0 = Inr [''All 3 os'']
   \<and> combine_config \<lparr>BUILD_CONFIGS = [''os''], TEST_DEVICES = (\<lambda>_. None), set_iter = (\<lambda>s. s)\<rparr>
     [''ubuntu''] [''ubuntu''] 0 = Inr [''ubuntu'']"
proof -
  have s: "set [''windows'', ''ubuntu'', ''macos''] = set [''ubuntu'', ''macos'', ''windows'']"
    by (simp add: insert_commute)
  have a: "combine_config \<lparr>BUILD_CONFIGS = [''os''], TEST_DEVICES = (\<lambda>_. None), set_iter = (\<lambda>s. s)\<rparr>
     [''windows'', ''ubuntu'', ''macos''] [''ubuntu'', ''macos'', ''windows''] 0 = Inr [''All 3 os'']"
    using combine_config_all [of 0
      "\<lparr>BUILD_CONFIGS = [''os''], TEST_DEVICES = (\<lambda>_. None), set_iter = (\<lambda>s. s)\<rparr>"
      "[''windows'', ''ubuntu'', ''macos'']" "[''ubuntu'', ''macos'', ''windows'']", OF _ _ _ s]
    by (simp add: str_of_nat.simps digit_char_def)
  have b: "combine_config \<lparr>BUILD_CONFIGS = [''os''], TEST_DEVICES = (\<lambda>_. None), set_iter = (\<lambda>s. s)\<rparr>
     [''ubuntu''] [''ubuntu''] 0 = Inr [''ubuntu'']"
    using combine_config_all [of 0
      "\<lparr>BUILD_CONFIGS = [''os''], TEST_DEVICES = (\<lambda>_. None), set_iter = (\<lambda>s. s)\<rparr>"
      "[''ubuntu'']" "[''ubuntu'']"]
    by simp
  from a b show ?thesis by simp
qed

text \<open>
  C1 as stated includes a universe of exactly one value. There the guard
  \<open>len(config_value) > 1\<close> fails and the axis is not rendered as \<open>All 1 os\<close>.
\<close>

theorem combine_config_all_counterexample:
  "combine_config \<lparr>BUILD_CONFIGS = [''os''], TEST_DEVICES = (\<lambda>_. None), set_iter = (\<lambda>s. s)\<rparr>
     [''ubuntu''] [''ubuntu''] 0 = Inr [''ubuntu'']
   \<and> combine_config \<lparr>BUILD_CONFIGS = [''os''], TEST_DEVICES = (\<lambda>_. None), set_iter = (\<lambda>s. s)\<rparr>
     [''ubuntu''] [''ubuntu''] 0 \<noteq> Inr [''All 1 os'']"
  by (simp add: combine_config_def)

lemma strict_subset_shorter:
  assumes "distinct xs" and "distinct ys" and "set xs \<subset> set ys"
  shows "length xs < length ys"
  using assms by (metis distinct_card psubset_card_mono List.finite_set)

text \<open>
  C2 (as amended). On an axis whose failing values are a non-empty strict subset, of size
  \<open>k\<close>, of a universe of size \<open>N > 1\<close>, and where the device branch groups nothing
  (the axis is not \<open>Test Device(s)\<close>, or neither the real nor the virtual devices of the
  universe are at least two and all among the failing values), \<open>combine_config\<close> returns
  the single label \<open>k/N <axis-name>: \<close> followed by the failing values in the order in
  which the set is iterated, single quotes removed, separated by one space.
\<close>

theorem combine_config_part:
  assumes "k < length (BUILD_CONFIGS env)"
    and "distinct config" and "distinct config_value"
    and "config \<noteq> []" and "set config \<subset> set config_value"
    and "1 < length config_value"
    and "BUILD_CONFIGS env ! k = ''Test Device(s)'' \<longrightarrow>
           \<not> (1 < length (devices_of_type env ''real'' config_value)
                \<and> set (devices_of_type env ''real'' config_value) \<subseteq> set config)
         \<and> \<not> (1 < length (devices_of_type env ''virtual'' config_value)
                \<and> set (devices_of_type env ''virtual'' config_value) \<subseteq> set config)"
  shows "combine_config env config config_value k =
           Inr [str_of_nat (length config) @ ''/'' @ str_of_nat (length config_value) @ '' ''
                @ BUILD_CONFIGS env ! k @ '': ''
                @ join '' '' (map (filter (\<lambda>c. c \<noteq> CHR 0x27)) (set_iter env config))]"
proof -
  have "length config < length config_value"
    using assms(2,3,5) by (rule strict_subset_shorter)
  then have ne: "length config \<noteq> length config_value" by simp
  have fc: "flat_config (map Str (set_iter env config))
              = join '' '' (map (filter (\<lambda>c. c \<noteq> CHR 0x27)) (set_iter env config))"
    by (simp add: flat_config_def comp_def)
  show ?thesis
  proof (cases "BUILD_CONFIGS env ! k = ''Test Device(s)''")
    case True
    with assms(7) have g1: "group_devices env ''FTL Devices''
        (devices_of_type env ''real'' config_value) (PySet config) = Inr (PySet config)"
      and g2: "group_devices env ''Virtual Devices''
        (devices_of_type env ''virtual'' config_value) (PySet config) = Inr (PySet config)"
      by (auto simp: group_devices_def elems_def)
    show ?thesis
      using assms(1,6) ne True g1 g2 fc by (simp add: combine_config_def)
  next
    case False
    then show ?thesis
      using assms(1,6) ne fc by (simp add: combine_config_def)
  qed
qed

theorem combine_config_part_witness:
  "combine_config \<lparr>BUILD_CONFIGS = [''os''], TEST_DEVICES = (\<lambda>_. None), set_iter = rev\<rparr>
     [''windows'', ''ubuntu''] [''windows'', ''ubuntu'', ''macos''] 0
     = Inr [''2/3 os: ubuntu windows'']"
proof -
  have sub: "set [''windows'', ''ubuntu''] \<subset> set [''windows'', ''ubuntu'', ''macos'']"
    by (simp add: psubset_eq insert_eq_iff)
  have "combine_config \<lparr>BUILD_CONFIGS = [''os''], TEST_DEVICES = (\<lambda>_. None), set_iter = rev\<rparr>
     [''windows'', ''ubuntu''] [''windows'', ''ubuntu'', ''macos''] 0 =
     Inr [str_of_nat (length [''windows'', ''ubuntu'']) @ ''/''
          @ str_of_nat (length [''windows'', ''ubuntu'', ''macos'']) @ '' ''
          @ BUILD_CONFIGS \<lparr>BUILD_CONFIGS = [''os''], TEST_DEVICES = (\<lambda>_. None), set_iter = rev\<rparr> ! 0
          @ '': ''
          @ join '' '' (map (filter (\<lambda>c. c \<noteq> CHR 0x27))
              (set_iter \<lparr>BUILD_CONFIGS = [''os''], TEST_DEVICES = (\<lambda>_. None), set_iter = rev\<rparr>
                 [''windows'', ''ubuntu'']))]"
    by (rule combine_config_part [OF _ _ _ _ sub]) simp_all
  then show ?thesis
    by (simp add: str_of_nat.simps digit_char_def)
qed

text \<open>
  C2 as stated fails in two ways. The values are not sorted: they come in the iteration
  order of the set (here the insertion order). And on the axis \<open>Test Device(s)\<close> a
  complete group of real devices is replaced by one label even when the failing values
  are a strict subset of the universe.
\<close>

theorem combine_config_part_counterexample:
  "combine_config \<lparr>BUILD_CONFIGS = [''os''], TEST_DEVICES = (\<lambda>_. None), set_iter = (\<lambda>s. s)\<rparr>
     [''windows'', ''ubuntu''] [''windows'', ''ubuntu'', ''macos''] 0
     = Inr [''2/3 os: windows ubuntu'']
   \<and> \<not> sorted [''windows'', ''ubuntu'']
   \<and> combine_config
       \<lparr>BUILD_CONFIGS = [''Test Device(s)''],
        TEST_DEVICES = map_of [(''android_min'', ''real''), (''android_target'', ''real''),
                               (''emulator_target'', ''virtual'')],
        set_iter = (\<lambda>s. s)\<rparr>
     [''android_min'', ''android_target'']
     [''android_min'', ''android_target'', ''emulator_target''] 0
     = Inr [''All 2 FTL Devices'']"
  by (simp add: combine_config_def flat_config_def str_of_nat.simps digit_char_def
      group_devices_def devices_of_type_def substring_def elems_def set_add_def)

section \<open>Properties of the aggregation\<close>

lemma str_of_nat_digit: "n < 10 \<Longrightarrow> str_of_nat n = [digit_char n]"
  by (simp add: str_of_nat.simps)

lemmas model_defs =
  reorganize_log_def add_category_def category_label_def reorganize_configs_def
  combine_configs_def combine_config_def flat_config_def add_label_def setdefault_def
  set_add_def repr_str_def repr_char_def printable_def Let_def group_devices_def
  devices_of_type_def substring_def elems_def digit_char_def str_of_nat_digit

lemma setdefault_set: "set (setdefault k v d) \<subseteq> insert (k, v) (set d)"
  by (auto simp: setdefault_def)

lemma all_empty_add_label:
  assumes "all_empty r"
  shows "all_empty (add_label testapp label r)"
  using assms setdefault_set [of testapp "[]" r]
  unfolding all_empty_def add_label_def
  by (fastforce simp: setdefault_def split: if_splits)

lemma all_empty_add_category:
  assumes "all_empty r" and "add_category env testapp kind what configs u r = Inr r'"
  shows "all_empty r'"
  using assms by (auto simp: add_category_def all_empty_add_label split: if_splits sum.splits)

lemma all_empty_reorganize_log_from:
  assumes "all_empty r" and "reorganize_log_from env tested data r = Inr r'"
  shows "all_empty r'"
  using assms
proof (induction data arbitrary: r)
  case Nil
  then show ?case by simp
next
  case (Cons a data)
  obtain testapp errs where a: "a = (testapp, errs)" by (cases a)
  from Cons.prems(2) obtain r1 r2 r3 r4 where
    s1: "add_category env testapp ''BUILD'' ''ERROR'' (build errs) (build_configs tested) r = Inr r1"
    and s2: "add_category env testapp ''TEST'' ''ERROR'' (test_errors errs) (test_configs tested) r1 = Inr r2"
    and s3: "add_category env testapp ''TEST'' ''FAILURE'' (test_failures errs) (test_configs tested) r2 = Inr r3"
    and s4: "add_category env testapp ''TEST'' ''FLAKINESS'' (test_flakiness errs) (test_configs tested) r3 = Inr r4"
    and rest: "reorganize_log_from env tested data r4 = Inr r'"
    unfolding a by (auto split: sum.splits)
  have "all_empty r4"
    using Cons.prems(1) s1 s2 s3 s4 by (blast intro: all_empty_add_category)
  then show ?case using rest by (rule Cons.IH)
qed

text \<open>
  C9. Every list of failed tests in the result of \<open>reorganize_log\<close> is empty: each
  label is entered with \<open>setdefault(label, [])\<close> and never appended to. So for every
  entry of the result \<open>print_log\<close> emits the line of the label only, without a
  \<open>- failed tests:\<close> line, and \<open>format_result\<close> renders the label followed by the
  separator, without the \<open>(n failed tests)\<close> widget.
\<close>

theorem reorganize_log_no_failed_tests:
  assumes "reorganize_log env data tested = Inr results"
    and "(testapp, configs) \<in> set results" and "entry \<in> set configs"
  shows "snd entry = []
       \<and> log_config_lines entry = [''  - '' @ fst entry]
       \<and> format_entry space_char list_separator entry = fst entry @ list_separator"
proof -
  have "all_empty []" by (simp add: all_empty_def)
  then have "all_empty results"
    using assms(1) unfolding reorganize_log_def by (rule all_empty_reorganize_log_from)
  with assms(2,3) have "snd entry = []" by (auto simp: all_empty_def)
  then show ?thesis
    by (cases entry) (simp add: log_config_lines_def format_entry_def)
qed

theorem reorganize_log_no_failed_tests_witness:
  "reorganize_log \<lparr>BUILD_CONFIGS = [''os''], TEST_DEVICES = (\<lambda>_. None), set_iter = (\<lambda>s. s)\<rparr>
        [(''admob'', \<lparr>build = [[''ubuntu'']], test_errors = [], test_failures = [],
                      test_flakiness = []\<rparr>)]
        \<lparr>build_configs = [[''ubuntu'']], test_configs = []\<rparr>
      = Inr [(''admob'', [(''[BUILD] [ERROR] [ubuntu]'', [])])]
   \<and> log_config_lines (''[BUILD] [ERROR] [ubuntu]'', []) = [''  - [BUILD] [ERROR] [ubuntu]'']
   \<and> format_entry ''&nbsp;'' ''<br/>'' (''[BUILD] [ERROR] [ubuntu]'', [])
       = ''[BUILD] [ERROR] [ubuntu]<br/>''"
proof -
  have run: "reorganize_log \<lparr>BUILD_CONFIGS = [''os''], TEST_DEVICES = (\<lambda>_. None), set_iter = (\<lambda>s. s)\<rparr>
        [(''admob'', \<lparr>build = [[''ubuntu'']], test_errors = [], test_failures = [],
                      test_flakiness = []\<rparr>)]
        \<lparr>build_configs = [[''ubuntu'']], test_configs = []\<rparr>
      = Inr [(''admob'', [(''[BUILD] [ERROR] [ubuntu]'', [])])]"
    by (simp add: model_defs)
  show ?thesis
    using run reorganize_log_no_failed_tests [OF run, of "''admob''"
        "[(''[BUILD] [ERROR] [ubuntu]'', [])]" "(''[BUILD] [ERROR] [ubuntu]'', [])"
        "''&nbsp;''" "''<br/>''"]
    by simp
qed

section \<open>Properties of the rendering\<close>

lemma fold_set_add_distinct:
  "distinct (acc @ xs) \<Longrightarrow> fold set_add xs acc = acc @ xs"
  by (induction xs arbitrary: acc) (auto simp: set_add_def)

lemma format_entry_empty:
  "snd entry = [] \<Longrightarrow> format_entry sp sep entry = fst entry @ sep"
  by (cases entry) (simp add: format_entry_def)

text \<open>
  C5. A cell is the dictionary of one test application: its keys are distinct, and its
  lists of failed tests are empty (C9). When it holds more than \<open>LIST_MAX = 3\<close>
  entries, \<open>format_result\<close> returns a \<open><details>\<close> widget whose summary states the
  number of entries; otherwise the at most three entries are rendered inline. This
  holds for every \<open>space_char\<close>, \<open>list_separator\<close> and \<open>justify\<close>, so also for those of
  the Markdown table.
\<close>

theorem format_result_collapse:
  assumes "distinct (map fst cell)" and "\<forall>entry \<in> set cell. snd entry = []"
  shows "format_result cell space_char list_separator justify =
           (if LIST_MAX < length cell then
              ''<details><summary>('' @ str_of_nat (length cell) @ '' items)</summary>''
              @ concat (sort (map (\<lambda>entry. fst entry @ list_separator) cell)) @ ''</details>''
            else ljust justify (concat (sort (map (\<lambda>entry. fst entry @ list_separator) cell))))
         \<and> LIST_MAX = 3"
proof -
  have m: "map (format_entry space_char list_separator) cell
             = map (\<lambda>entry. fst entry @ list_separator) cell"
    using assms(2) by (simp add: format_entry_empty)
  have "inj (\<lambda>c :: string. c @ list_separator)" by (simp add: inj_def)
  then have "distinct (map (\<lambda>c. c @ list_separator) (map fst cell))"
    using assms(1) by (simp add: distinct_map inj_on_def)
  then have d: "distinct (map (\<lambda>entry. fst entry @ list_separator) cell)"
    by (simp add: comp_def)
  have "fold set_add (map (\<lambda>entry. fst entry @ list_separator) cell) []
          = map (\<lambda>entry. fst entry @ list_separator) cell"
    using fold_set_add_distinct [of "[]"] d by simp
  then show ?thesis
    by (simp add: format_result_def m LIST_MAX_def)
qed

theorem format_result_collapse_witness:
  "format_result
     [(''[TEST] [ERROR] [a]'', []), (''[BUILD] [ERROR] [a]'', []),
      (''[TEST] [FLAKINESS] [a]'', []), (''[TEST] [FAILURE] [a]'', [])]
     ''&nbsp;'' ''<br/>'' 0
   = ''<details><summary>(4 items)</summary>[BUILD] [ERROR] [a]<br/>[TEST] [ERROR] [a]<br/>[TEST] [FAILURE] [a]<br/>[TEST] [FLAKINESS] [a]<br/></details>''"
proof -
  have "format_result
     [(''[TEST] [ERROR] [a]'', []), (''[BUILD] [ERROR] [a]'', []),
      (''[TEST] [FLAKINESS] [a]'', []), (''[TEST] [FAILURE] [a]'', [])]
     ''&nbsp;'' ''<br/>'' 0 =
     (if LIST_MAX < length [(''[TEST] [ERROR] [a]'', []::string list), (''[BUILD] [ERROR] [a]'', []),
      (''[TEST] [FLAKINESS] [a]'', []), (''[TEST] [FAILURE] [a]'', [])] then
              ''<details><summary>('' @ str_of_nat (length [(''[TEST] [ERROR] [a]'', []::string list), (''[BUILD] [ERROR] [a]'', []),
      (''[TEST] [FLAKINESS] [a]'', []), (''[TEST] [FAILURE] [a]'', [])]) @ '' items)</summary>''
              @ concat (sort (map (\<lambda>entry. fst entry @ ''<br/>'') [(''[TEST] [ERROR] [a]'', []::string list), (''[BUILD] [ERROR] [a]'', []),
      (''[TEST] [FLAKINESS] [a]'', []), (''[TEST] [FAILURE] [a]'', [])])) @ ''</details>''
            else ljust 0 (concat (sort (map (\<lambda>entry. fst entry @ ''<br/>'') [(''[TEST] [ERROR] [a]'', []::string list), (''[BUILD] [ERROR] [a]'', []),
      (''[TEST] [FLAKINESS] [a]'', []), (''[TEST] [FAILURE] [a]'', [])]))))
         \<and> LIST_MAX = 3"
    by (rule format_result_collapse) simp_all
  then show ?thesis
    by (simp add: str_of_nat_digit digit_char_def)
qed

lemma sort_key_fst_lookup:
  assumes "distinct (map fst ps)"
  shows "sort_key fst ps = map (\<lambda>k. (k, the (map_of ps k))) (sort (map fst ps))"
proof -
  have keys: "map fst (sort_key fst ps) = sort (map fst ps)"
  proof (rule sorted_distinct_set_unique)
    show "sorted (map fst (sort_key fst ps))" by simp
    show "distinct (map fst (sort_key fst ps))"
      using assms by (simp add: distinct_map)
    show "sorted (sort (map fst ps))" by simp
    show "distinct (sort (map fst ps))" using assms by simp
    show "set (map fst (sort_key fst ps)) = set (sort (map fst ps))" by simp
  qed
  have "\<forall>p \<in> set (sort_key fst ps). (fst p, the (map_of ps (fst p))) = p"
    using assms by (auto simp: map_of_eq_Some_iff)
  then have "map (\<lambda>p. (fst p, the (map_of ps (fst p)))) (sort_key fst ps) = sort_key fst ps"
    by (intro map_idI) simp
  then have "sort_key fst ps = map (\<lambda>k. (k, the (map_of ps k))) (map fst (sort_key fst ps))"
    by (simp add: comp_def)
  with keys show ?thesis by simp
qed

lemma map_of_filter_other:
  "t \<noteq> m \<Longrightarrow> map_of (filter (\<lambda>entry. fst entry \<noteq> m) r) t = map_of r t"
  by (induction r) auto

text \<open>
  C10. The table starts with the two header lines; the row of \<open>missing_log\<close>, when
  the entry exists, comes next; the rows of the other test applications follow in
  strictly ascending order of their names.
\<close>

theorem print_table_order:
  assumes "distinct (map fst r)"
  shows "\<exists>names.
           sorted_wrt (<) names
         \<and> set names = fst ` set r - {MISSING_LOG}
         \<and> print_table r testapps_width configs_width space_char list_separator =
             [table_row (sub_spaces space_char (ljust testapps_width TESTAPPS_HEADER))
                        (sub_spaces space_char (ljust configs_width CONFIGS_HEADER)),
              rule_row (sub_spaces space_char (ljust testapps_width TESTAPPS_HEADER))
                       (sub_spaces space_char (ljust configs_width CONFIGS_HEADER))]
             @ (case map_of r MISSING_LOG of
                  None \<Rightarrow> []
                | Some config_tests \<Rightarrow>
                    [result_row testapps_width configs_width space_char list_separator
                       (MISSING_LOG, config_tests)])
             @ map (\<lambda>testapp. result_row testapps_width configs_width space_char list_separator
                      (testapp, the (map_of r testapp))) names"
proof -
  let ?popped = "filter (\<lambda>entry. fst entry \<noteq> MISSING_LOG) r"
  let ?names = "sort (map fst ?popped)"
  have d: "distinct (map fst ?popped)"
    using assms by (simp add: distinct_map_filter)
  have s: "sorted_wrt (<) ?names"
    using d by (simp add: strict_sorted_iff)
  have e: "set ?names = fst ` set r - {MISSING_LOG}"
    by auto
  have "sort_key fst ?popped = map (\<lambda>k. (k, the (map_of ?popped k))) ?names"
    using d by (rule sort_key_fst_lookup)
  also have "\<dots> = map (\<lambda>k. (k, the (map_of r k))) ?names"
    by (rule map_cong) (auto simp: map_of_filter_other)
  finally have "sort_key fst ?popped = map (\<lambda>k. (k, the (map_of r k))) ?names" .
  then have "print_table r testapps_width configs_width space_char list_separator =
             [table_row (sub_spaces space_char (ljust testapps_width TESTAPPS_HEADER))
                        (sub_spaces space_char (ljust configs_width CONFIGS_HEADER)),
              rule_row (sub_spaces space_char (ljust testapps_width TESTAPPS_HEADER))
                       (sub_spaces space_char (ljust configs_width CONFIGS_HEADER))]
             @ (case map_of r MISSING_LOG of
                  None \<Rightarrow> []
                | Some config_tests \<Rightarrow>
                    [result_row testapps_width configs_width space_char list_separator
                       (MISSING_LOG, config_tests)])
             @ map (\<lambda>testapp. result_row testapps_width configs_width space_char list_separator
                      (testapp, the (map_of r testapp))) ?names"
    by (simp add: print_table_def Let_def comp_def)
  with s e show ?thesis by blast
qed

theorem print_table_order_witness:
  "\<exists>names.
     sorted_wrt (<) names
   \<and> set names = fst ` set [(''zeta'', [(''[BUILD] [ERROR] [a]'', []::string list)]),
                              (''missing_log'', [(''[TEST] [ERROR] [a]'', []::string list)]),
                              (''alpha'', [(''[TEST] [FAILURE] [a]'', []::string list)])] - {MISSING_LOG}
   \<and> print_table [(''zeta'', [(''[BUILD] [ERROR] [a]'', []::string list)]),
                   (''missing_log'', [(''[TEST] [ERROR] [a]'', []::string list)]),
                   (''alpha'', [(''[TEST] [FAILURE] [a]'', []::string list)])] 0 0 ''&nbsp;'' ''<br/>'' =
       [table_row (sub_spaces ''&nbsp;'' (ljust 0 TESTAPPS_HEADER))
                  (sub_spaces ''&nbsp;'' (ljust 0 CONFIGS_HEADER)),
        rule_row (sub_spaces ''&nbsp;'' (ljust 0 TESTAPPS_HEADER))
                 (sub_spaces ''&nbsp;'' (ljust 0 CONFIGS_HEADER))]
       @ (case map_of [(''zeta'', [(''[BUILD] [ERROR] [a]'', []::string list)]),
                       (''missing_log'', [(''[TEST] [ERROR] [a]'', []::string list)]),
                       (''alpha'', [(''[TEST] [FAILURE] [a]'', []::string list)])] MISSING_LOG of
            None \<Rightarrow> []
          | Some config_tests \<Rightarrow> [result_row 0 0 ''&nbsp;'' ''<br/>'' (MISSING_LOG, config_tests)])
       @ map (\<lambda>testapp. result_row 0 0 ''&nbsp;'' ''<br/>''
                (testapp, the (map_of [(''zeta'', [(''[BUILD] [ERROR] [a]'', []::string list)]),
                                       (''missing_log'', [(''[TEST] [ERROR] [a]'', []::string list)]),
                                       (''alpha'', [(''[TEST] [FAILURE] [a]'', []::string list)])] testapp))) names"
  by (rule print_table_order) simp

section \<open>Properties of the whole run\<close>

lemma read_build_quiet:
  assumes "name_matches re f" and "quiet_build_log f"
    and "success_or_only_flakiness st" and "log_data st = []"
  shows "\<exists>st'. read_build_log re f st = Inr st' \<and> success_or_only_flakiness st' \<and> log_data st' = []"
  using assms
  by (auto simp: read_build_log_def name_matches_def quiet_build_log_def Let_def
      split: sum.splits log_text.splits)

lemma read_test_quiet:
  assumes "name_matches re f" and "quiet_test_log f"
    and "success_or_only_flakiness st" and "log_data st = []"
  shows "\<exists>st'. read_test_log re f st = Inr st' \<and> success_or_only_flakiness st' \<and> log_data st' = []"
  using assms
  by (auto simp: read_test_log_def name_matches_def quiet_test_log_def Let_def
      split: sum.splits log_text.splits)

lemma read_logs_quiet:
  assumes "\<forall>f \<in> set fs. (\<forall>st. success_or_only_flakiness st \<and> log_data st = [] \<longrightarrow>
             (\<exists>st'. read f st = Inr st' \<and> success_or_only_flakiness st' \<and> log_data st' = []))"
    and "success_or_only_flakiness st" and "log_data st = []"
  shows "\<exists>st'. read_logs read fs st = Inr st' \<and> success_or_only_flakiness st' \<and> log_data st' = []"
  using assms
proof (induction fs arbitrary: st)
  case Nil
  then show ?case by simp
next
  case (Cons f fs)
  then obtain st1 where "read f st = Inr st1" "success_or_only_flakiness st1" "log_data st1 = []"
    by auto
  with Cons show ?case by auto
qed

text \<open>
  C3 (as amended). When the name of every log matches the regular expression that
  \<open>summarize_logs\<close> makes from \<open>dir\<close> and the pattern of the log, every build log is a
  JSON object with no entry under \<open>errors\<close>, and every test log a JSON object with no
  entry under \<open>errors\<close>, \<open>failures\<close> and \<open>flakiness\<close> (so that no log holds the
  sentinel), \<open>summarize_logs\<close> returns \<open>(True, None)\<close>.
\<close>

theorem summarize_logs_nothing:
  assumes "\<forall>f \<in> set build_log_files. name_matches (build_log_name_re dir) f \<and> quiet_build_log f"
    and "\<forall>f \<in> set test_log_files. name_matches (test_log_name_re dir) f \<and> quiet_test_log f"
  shows "summarize_logs env dir build_log_files test_log_files markdown github_log = Inr (True, None)"
proof -
  let ?st0 = "\<lparr>success_or_only_flakiness = True, log_data = [],
               all_tested_configs = \<lparr>build_configs = [], test_configs = []\<rparr>\<rparr>"
  have "\<exists>st1. read_logs (read_build_log (build_log_name_re dir)) build_log_files ?st0 = Inr st1
          \<and> success_or_only_flakiness st1 \<and> log_data st1 = []"
    using assms(1) by (intro read_logs_quiet) (auto intro: read_build_quiet)
  then obtain st1 where b: "read_logs (read_build_log (build_log_name_re dir)) build_log_files ?st0 = Inr st1"
    and b1: "success_or_only_flakiness st1" and b2: "log_data st1 = []" by blast
  have "\<exists>st. read_logs (read_test_log (test_log_name_re dir)) test_log_files st1 = Inr st
          \<and> success_or_only_flakiness st \<and> log_data st = []"
    using assms(2) b1 b2 by (intro read_logs_quiet) (auto intro: read_test_quiet)
  then obtain st where t: "read_logs (read_test_log (test_log_name_re dir)) test_log_files st1 = Inr st"
    and "success_or_only_flakiness st" and "log_data st = []" by blast
  then show ?thesis
    using b by (simp add: summarize_logs_def)
qed

lemmas name_defs =
  name_matches_def covers_axes_def build_log_name_re_def test_log_name_re_def path_join_def
  BUILD_FILE_PATTERN_def TEST_FILE_PATTERN_def get_configs_from_file_name_def split_def
  is_space_def quiet_build_log_def quiet_test_log_def

theorem summarize_logs_nothing_witness:
  "summarize_logs \<lparr>BUILD_CONFIGS = [''os'', ''arch''], TEST_DEVICES = (\<lambda>_. None), set_iter = (\<lambda>s. s)\<rparr>
     ''logs''
     [\<lparr>file_name = ''logs/build-results-ubuntu-latest-x64.log.json'',
       log_text = Json [(''errors'', [])]\<rparr>]
     [\<lparr>file_name = ''logs/test-results-ubuntu-latest-x64.log.json'',
       log_text = Json [(''errors'', []), (''failures'', []), (''flakiness'', [])]\<rparr>]
     True False = Inr (True, None)"
  by (rule summarize_logs_nothing) (simp_all add: name_defs)

text \<open>
  C3 as stated holds for every directory. For \<open>dir = "logs//"\<close> the names that
  \<open>glob\<close> returns start with \<open>logs/\<close>, the regular expression made from
  \<open>logs//build-results-*.log.json\<close> does not match them, \<open>re.search\<close> returns \<open>None\<close>
  and \<open>.groups\<close> raises, although no log has an entry.
\<close>

theorem summarize_logs_nothing_counterexample:
  "quiet_build_log \<lparr>file_name = ''logs/build-results-ubuntu-x64.log.json'',
                    log_text = Json [(''errors'', [])]\<rparr>
   \<and> summarize_logs \<lparr>BUILD_CONFIGS = [''os'', ''arch''], TEST_DEVICES = (\<lambda>_. None), set_iter = (\<lambda>s. s)\<rparr>
     ''logs//''
     [\<lparr>file_name = ''logs/build-results-ubuntu-x64.log.json'',
       log_text = Json [(''errors'', [])]\<rparr>]
     [] False False = Inl AttributeError_groups"
  by (simp add: summarize_logs_def read_build_log_def name_defs)

section \<open>Properties of the file names\<close>

lemma split_on_none: "c \<notin> set b \<Longrightarrow> split_on c b = [b]"
  by (induction b) auto

lemma split_on_one: "c \<notin> set a \<Longrightarrow> split_on c (a @ c # b) = a # split_on c b"
  by (induction a) auto

lemma build_re_plain:
  assumes "CHR ''*'' \<notin> set dir"
  shows "build_log_name_re dir = [path_join dir ''build-results-'', ''.log.json'']"
proof -
  have "path_join dir BUILD_FILE_PATTERN = path_join dir ''build-results-'' @ CHR ''*'' # ''.log.json''"
    by (simp add: path_join_def BUILD_FILE_PATTERN_def)
  moreover have "CHR ''*'' \<notin> set (path_join dir ''build-results-'')"
    using assms by (simp add: path_join_def)
  ultimately show ?thesis
    by (simp add: build_log_name_re_def split_on_one split_on_none)
qed

lemma test_re_plain:
  assumes "CHR ''*'' \<notin> set dir"
  shows "test_log_name_re dir = [path_join dir ''test-results-'', ''.log.json'']"
proof -
  have "path_join dir TEST_FILE_PATTERN = path_join dir ''test-results-'' @ CHR ''*'' # ''.log.json''"
    by (simp add: path_join_def TEST_FILE_PATTERN_def)
  moreover have "CHR ''*'' \<notin> set (path_join dir ''test-results-'')"
    using assms by (simp add: path_join_def)
  ultimately show ?thesis
    by (simp add: test_log_name_re_def split_on_one split_on_none)
qed

lemma match_group_unfold:
  "match_group segs s k =
     (case match_at segs (drop k s) of
        Some groups \<Rightarrow> Some (take k s # groups)
      | None \<Rightarrow> if k = 0 then None else match_group segs s (k - 1))"
  by (cases k) (auto split: option.splits)

lemma match_group_last:
  assumes "suf \<noteq> []" and "j \<le> length suf"
  shows "match_group [suf] (m @ suf) (length m + j) = Some [m]"
  using assms(2)
proof (induction j)
  case 0
  show ?case
    by (subst match_group_unfold) simp
next
  case (Suc j)
  have "take (length suf) (drop (length m + Suc j) (m @ suf)) \<noteq> suf"
  proof
    assume "take (length suf) (drop (length m + Suc j) (m @ suf)) = suf"
    then have "length (take (length suf) (drop (length m + Suc j) (m @ suf))) = length suf"
      by simp
    then show False using Suc.prems by simp
  qed
  then have "match_at [suf] (drop (length m + Suc j) (m @ suf)) = None"
    by simp
  then show ?case
    using Suc by (subst match_group_unfold) simp
qed

lemma re_search_start: "match_at segs s = Some g \<Longrightarrow> re_search segs s = Some g"
  by (cases s) auto

lemma re_search_name:
  assumes "CHR 0x0A \<notin> set m" and "suf \<noteq> []" and "CHR 0x0A \<notin> set suf"
  shows "re_search [pre, suf] (pre @ m @ suf) = Some [m]"
proof -
  have "\<forall>c \<in> set (m @ suf). c \<noteq> CHR 0x0A"
    using assms(1,3) by auto
  then have "takeWhile (\<lambda>c. c \<noteq> CHR 0x0A) (m @ suf) = m @ suf"
    by (simp only: takeWhile_eq_all_conv)
  then have "length (takeWhile (\<lambda>c. c \<noteq> CHR 0x0A) (m @ suf)) = length m + length suf"
    by (simp only: length_append)
  then have "match_at [pre, suf] (pre @ m @ suf) = match_group [suf] (m @ suf) (length m + length suf)"
    using assms(2) by (simp del: takeWhile_append1 takeWhile_append2 takeWhile_append)
  also have "\<dots> = Some [m]"
    using assms(2) by (rule match_group_last) simp
  finally show ?thesis by (rule re_search_start)
qed

lemma split_from_word:
  "\<forall>ch \<in> set w. \<not> is_space ch \<Longrightarrow> split_from word (w @ rest) = split_from (word @ w) rest"
  by (induction w arbitrary: word) auto

lemma space_is_space: "is_space CHR '' ''"
  by (simp add: is_space_def)

lemma split_join_plain:
  assumes "\<forall>c \<in> set v. plain c"
  shows "split_from [] (join '' '' v) = v"
  using assms
proof (induction v rule: induct_list012)
  case 1
  then show ?case by simp
next
  case (2 x)
  then have "\<forall>ch \<in> set x. \<not> is_space ch" and "x \<noteq> []" by (auto simp: plain_def)
  then show ?case
    using split_from_word [of x "[]" "[]"] by simp
next
  case (3 x y zs)
  then have x: "\<forall>ch \<in> set x. \<not> is_space ch" "x \<noteq> []" by (auto simp: plain_def)
  have ih: "split_from [] (join '' '' (y # zs)) = y # zs"
    using 3 by simp
  have "split_from [] (x @ '' '' @ join '' '' (y # zs)) = split_from x ('' '' @ join '' '' (y # zs))"
    using split_from_word [OF x(1), of "[]"] by simp
  also have "\<dots> = x # split_from [] (join '' '' (y # zs))"
    using x(2) space_is_space by simp
  finally show ?case using ih by simp
qed

lemma map_join:
  "map f (join sep v) = join (map f sep) (map (map f) v)"
  by (induction sep v rule: join.induct) auto

lemma dash_join_plain:
  assumes "\<forall>c \<in> set v. plain c"
  shows "map (\<lambda>c. if c = CHR ''-'' then CHR '' '' else c) (join ''-'' v) = join '' '' v"
proof -
  have "map (map (\<lambda>c. if c = CHR ''-'' then CHR '' '' else c)) v = v"
    using assms by (intro map_idI) (auto simp: plain_def intro: map_idI)
  then show ?thesis by (simp add: map_join)
qed

lemma no_newline_join:
  assumes "\<forall>c \<in> set v. plain c"
  shows "CHR 0x0A \<notin> set (join ''-'' v)"
  using assms
  by (induction "''-''" v rule: join.induct) (auto simp: plain_def is_space_def)

lemma split_from_plain:
  assumes "\<forall>ch \<in> set word. \<not> is_space ch"
  shows "\<forall>w \<in> set (split_from word s). w \<noteq> [] \<and> (\<forall>ch \<in> set w. \<not> is_space ch)"
  using assms
proof (induction s arbitrary: word)
  case Nil
  then show ?case by simp
next
  case (Cons c s)
  show ?case
  proof (cases "is_space c")
    case True
    have "\<forall>w \<in> set (split_from [] s). w \<noteq> [] \<and> (\<forall>ch \<in> set w. \<not> is_space ch)"
      by (rule Cons.IH) simp
    with True Cons.prems show ?thesis by simp
  next
    case False
    have "\<forall>w \<in> set (split_from (word @ [c]) s). w \<noteq> [] \<and> (\<forall>ch \<in> set w. \<not> is_space ch)"
      using False Cons.prems by (intro Cons.IH) simp
    with False show ?thesis by simp
  qed
qed

lemma split_from_chars:
  "\<forall>w \<in> set (split_from word s). set w \<subseteq> set word \<union> set s"
proof (induction s arbitrary: word)
  case Nil
  then show ?case by simp
next
  case (Cons c s)
  show ?case
  proof (cases "is_space c")
    case True
    have "\<forall>w \<in> set (split_from [] s). set w \<subseteq> set [] \<union> set s"
      by (rule Cons.IH)
    with True show ?thesis by auto
  next
    case False
    have "\<forall>w \<in> set (split_from (word @ [c]) s). set w \<subseteq> set (word @ [c]) \<union> set s"
      by (rule Cons.IH)
    with False show ?thesis by auto
  qed
qed

lemma get_configs_plain:
  assumes "get_configs_from_file_name name re = Inr configs"
  shows "\<forall>c \<in> set configs. plain c \<and> c \<noteq> ''latest''"
proof -
  let ?f = "\<lambda>c. if c = CHR ''-'' then CHR '' '' else c"
  from assms obtain matrix rest where m: "re_search re name = Some (matrix # rest)"
    by (cases "re_search re name"; cases "the (re_search re name)")
       (simp_all add: get_configs_from_file_name_def)
  define cs where "cs = split (map ?f matrix)"
  define l where "l = ''latest''"
  have e: "get_configs_from_file_name name re
             = Inr (if l \<in> set cs then filter (\<lambda>config. config \<noteq> l) cs else cs)"
    using m by (simp add: get_configs_from_file_name_def Let_def cs_def l_def)
  from assms have "Inr configs = get_configs_from_file_name name re" by (rule sym)
  also note e
  finally have c: "configs = (if l \<in> set cs then filter (\<lambda>config. config \<noteq> l) cs else cs)"
    by (rule Inr_inject)
  have a: "\<forall>w \<in> set cs. w \<noteq> [] \<and> (\<forall>ch \<in> set w. \<not> is_space ch)"
    unfolding cs_def split_def by (rule split_from_plain) simp
  define dash where "dash = CHR ''-''"
  have nodash: "dash \<notin> set (map ?f matrix)" by (auto simp: dash_def)
  have sub: "\<forall>w \<in> set cs. set w \<subseteq> set [] \<union> set (map ?f matrix)"
    unfolding cs_def split_def by (rule split_from_chars)
  have p: "\<forall>w \<in> set cs. plain w"
  proof
    fix w assume w: "w \<in> set cs"
    from sub w have "set w \<subseteq> set [] \<union> set (map ?f matrix)" by (rule bspec)
    then have s: "set w \<subseteq> set (map ?f matrix)" by simp
    have d: "\<forall>ch \<in> set w. ch \<noteq> dash"
    proof
      fix ch assume "ch \<in> set w"
      with s have "ch \<in> set (map ?f matrix)" by (rule subsetD)
      with nodash show "ch \<noteq> dash" by (rule_tac notI) simp
    qed
    from a w have "w \<noteq> [] \<and> (\<forall>ch \<in> set w. \<not> is_space ch)" by (rule bspec)
    with d show "plain w" unfolding plain_def dash_def by simp
  qed
  have "\<forall>c \<in> set configs. plain c \<and> c \<noteq> l"
  proof (cases "l \<in> set cs")
    case True
    then have "configs = filter (\<lambda>config. config \<noteq> l) cs" using c by simp
    then have "\<forall>c \<in> set configs. c \<in> set cs \<and> c \<noteq> l" by simp
    with p show ?thesis by (metis (no_types))
  next
    case False
    then have "configs = cs" using c by simp
    with p False show ?thesis by (metis (no_types))
  qed
  then show ?thesis unfolding l_def .
qed

lemma roundtrip_plain:
  assumes "CHR ''*'' \<notin> set dir" and "\<forall>c \<in> set configs. plain c \<and> c \<noteq> ''latest''"
  shows "get_configs_from_file_name (log_name_of dir ''build'' configs) (build_log_name_re dir) = Inr configs"
    and "get_configs_from_file_name (log_name_of dir ''test'' configs) (test_log_name_re dir) = Inr configs"
proof -
  have p: "\<forall>c \<in> set configs. plain c" using assms(2) by simp
  have nl: "CHR 0x0A \<notin> set (join ''-'' configs)" using p by (rule no_newline_join)
  have b: "log_name_of dir ''build'' configs = path_join dir ''build-results-'' @ join ''-'' configs @ ''.log.json''"
    and t: "log_name_of dir ''test'' configs = path_join dir ''test-results-'' @ join ''-'' configs @ ''.log.json''"
    by (simp_all add: log_name_of_def path_join_def)
  have sb: "re_search (build_log_name_re dir) (log_name_of dir ''build'' configs) = Some [join ''-'' configs]"
    unfolding b build_re_plain [OF assms(1)] using nl by (intro re_search_name) simp_all
  have st: "re_search (test_log_name_re dir) (log_name_of dir ''test'' configs) = Some [join ''-'' configs]"
    unfolding t test_re_plain [OF assms(1)] using nl by (intro re_search_name) simp_all
  have sp: "split (map (\<lambda>c. if c = CHR ''-'' then CHR '' '' else c) (join ''-'' configs)) = configs"
    using p by (simp add: split_def dash_join_plain split_join_plain)
  define l where "l = ''latest''"
  have nolatest: "l \<notin> set configs" using assms(2) unfolding l_def by (metis (no_types))
  show "get_configs_from_file_name (log_name_of dir ''build'' configs) (build_log_name_re dir) = Inr configs"
    using sb sp nolatest by (simp add: get_configs_from_file_name_def l_def)
  show "get_configs_from_file_name (log_name_of dir ''test'' configs) (test_log_name_re dir) = Inr configs"
    using st sp nolatest by (simp add: get_configs_from_file_name_def l_def)
qed

text \<open>
  C6 (as amended). For every configuration vector that \<open>get_configs_from_file_name\<close>
  returns for some file name, and every \<open>dir\<close> without a star, the name of the build
  log and the name of the test log of the vector in \<open>dir\<close> give the same vector back,
  under the regular expressions that \<open>summarize_logs\<close> makes from \<open>dir\<close>; so the label
  aggregated from the vector derived again is the label aggregated from the vector.
\<close>

theorem file_name_round_trip:
  assumes "get_configs_from_file_name name file_name_re = Inr configs"
    and "CHR ''*'' \<notin> set dir"
  shows "get_configs_from_file_name (log_name_of dir ''build'' configs) (build_log_name_re dir)
           = Inr configs
       \<and> get_configs_from_file_name (log_name_of dir ''test'' configs) (test_log_name_re dir)
           = Inr configs
       \<and> (case get_configs_from_file_name (log_name_of dir ''build'' configs) (build_log_name_re dir) of
             Inl e \<Rightarrow> Inl e
           | Inr v \<Rightarrow> category_label env ''BUILD'' ''ERROR'' (others @ [v]) all_configs)
           = category_label env ''BUILD'' ''ERROR'' (others @ [configs]) all_configs
       \<and> (case get_configs_from_file_name (log_name_of dir ''test'' configs) (test_log_name_re dir) of
             Inl e \<Rightarrow> Inl e
           | Inr v \<Rightarrow> category_label env ''TEST'' what (others @ [v]) all_configs)
           = category_label env ''TEST'' what (others @ [configs]) all_configs"
proof -
  have p: "\<forall>c \<in> set configs. plain c \<and> c \<noteq> ''latest''"
    using assms(1) by (rule get_configs_plain)
  have b: "get_configs_from_file_name (log_name_of dir ''build'' configs) (build_log_name_re dir)
             = Inr configs"
    using assms(2) p by (rule roundtrip_plain(1))
  have t: "get_configs_from_file_name (log_name_of dir ''test'' configs) (test_log_name_re dir)
             = Inr configs"
    using assms(2) p by (rule roundtrip_plain(2))
  show ?thesis
    by (simp only: b t sum.case simp_thms)
qed

theorem file_name_round_trip_witness:
  "get_configs_from_file_name ''logs/build-results-windows-latest-x64.log.json''
       (build_log_name_re ''logs'') = Inr [''windows'', ''x64'']
   \<and> get_configs_from_file_name (log_name_of ''logs'' ''build'' [''windows'', ''x64''])
       (build_log_name_re ''logs'') = Inr [''windows'', ''x64'']
   \<and> get_configs_from_file_name (log_name_of ''logs'' ''test'' [''windows'', ''x64''])
       (test_log_name_re ''logs'') = Inr [''windows'', ''x64'']"
proof -
  have d: "get_configs_from_file_name ''logs/build-results-windows-latest-x64.log.json''
       (build_log_name_re ''logs'') = Inr [''windows'', ''x64'']"
    by (simp add: build_log_name_re_def path_join_def BUILD_FILE_PATTERN_def
        get_configs_from_file_name_def split_def is_space_def)
  have s: "CHR ''*'' \<notin> set ''logs''" by simp
  from file_name_round_trip [OF d s] d show ?thesis by simp
qed

text \<open>
  C6 as stated does not restrict the directory. With a star in \<open>dir\<close> the regular
  expression has a group for that star too, and \<open>groups(1)[0]\<close> is what that group
  matched: for the directory named \<open>l*s\<close> the vector derived again is \<open>[*]\<close>, and for
  \<open>dir = "l*s"\<close> matching the directory \<open>logs\<close> it is \<open>[og]\<close>.
\<close>

theorem file_name_round_trip_counterexample:
  "get_configs_from_file_name ''logs/build-results-ubuntu.log.json'' (build_log_name_re ''logs'')
     = Inr [''ubuntu'']
   \<and> get_configs_from_file_name (log_name_of ''l*s'' ''build'' [''ubuntu'']) (build_log_name_re ''l*s'')
     = Inr [''*'']
   \<and> get_configs_from_file_name ''logs/build-results-ubuntu.log.json'' (build_log_name_re ''l*s'')
     = Inr [''og'']"
  by (simp add: build_log_name_re_def path_join_def BUILD_FILE_PATTERN_def log_name_of_def
      get_configs_from_file_name_def split_def is_space_def)

section \<open>One failing configuration\<close>

lemma set_add_nonempty: "set_add c s \<noteq> []"
  by (auto simp: set_add_def)

lemma distinct_set_add: "distinct s \<Longrightarrow> distinct (set_add c s)"
  by (simp add: set_add_def)

lemma add_config_eq:
  "add_config sets v =
     (if length sets \<le> length v then Inr (map (\<lambda>(s, c). set_add c s) (zip sets v))
      else Inl IndexError)"
  by (induction sets v rule: add_config.induct) auto

lemma add_config_Inr:
  assumes "add_config sets v = Inr sets'"
  shows "length sets \<le> length v" and "length sets' = length sets"
    and "\<forall>s \<in> set sets'. s \<noteq> []"
    and "(\<forall>s \<in> set sets. distinct s) \<Longrightarrow> (\<forall>s \<in> set sets'. distinct s)"
proof -
  from assms have le: "length sets \<le> length v"
    and eq: "sets' = map (\<lambda>(s, c). set_add c s) (zip sets v)"
    by (auto simp: add_config_eq split: if_splits)
  show "length sets \<le> length v" by (rule le)
  show "length sets' = length sets" using le eq by simp
  show "\<forall>s \<in> set sets'. s \<noteq> []" using eq by (auto simp: set_add_nonempty)
  show "\<forall>s \<in> set sets'. distinct s" if "\<forall>s \<in> set sets. distinct s"
    using eq that by (auto simp: distinct_set_add dest: set_zip_leftD)
qed

lemma add_configs_Inr:
  assumes "add_configs sets vs = Inr sets'"
  shows "(\<forall>v \<in> set vs. length sets \<le> length v) \<and> length sets' = length sets
       \<and> ((\<forall>s \<in> set sets. distinct s) \<longrightarrow> (\<forall>s \<in> set sets'. distinct s))
       \<and> (vs \<noteq> [] \<longrightarrow> (\<forall>s \<in> set sets'. s \<noteq> []))
       \<and> ((\<forall>s \<in> set sets. s \<noteq> []) \<longrightarrow> (\<forall>s \<in> set sets'. s \<noteq> []))"
  using assms
proof (induction vs arbitrary: sets)
  case Nil
  then show ?case by simp
next
  case (Cons v vs)
  from Cons.prems obtain s1 where s1: "add_config sets v = Inr s1"
    and rest: "add_configs s1 vs = Inr sets'"
    by (auto split: sum.splits)
  note a = add_config_Inr [OF s1]
  note ih = Cons.IH [OF rest]
  from a(1,2) ih show ?case
    using a(3) a(4) by auto
qed

lemma reorganize_configs_Inr:
  assumes "reorganize_configs env vs = Inr sets"
  shows "(\<forall>v \<in> set vs. length (BUILD_CONFIGS env) \<le> length v)
       \<and> (\<forall>s \<in> set sets. distinct s)
       \<and> (vs \<noteq> [] \<longrightarrow> length sets = length (BUILD_CONFIGS env))"
proof (cases "vs = []")
  case True
  with assms show ?thesis
    by (simp add: reorganize_configs_def)
next
  case False
  with assms obtain s1 where
    s1: "add_configs (replicate (length (BUILD_CONFIGS env)) []) vs = Inr s1"
    and sets: "sets = filter (\<lambda>config. config \<noteq> []) s1"
    by (auto simp: reorganize_configs_def split: sum.splits)
  note a = add_configs_Inr [OF s1]
  have ne: "\<forall>s \<in> set s1. s \<noteq> []" using a False by simp
  then have same: "sets = s1" using sets by simp
  show ?thesis using a same by simp
qed

lemma zip_replicate_empty:
  "map (\<lambda>(s, c). set_add c s) (zip (replicate n []) v) = map (\<lambda>c. [c]) (take n v)"
proof (induction n arbitrary: v)
  case 0
  then show ?case by simp
next
  case (Suc n)
  then show ?case by (cases v) (simp_all add: set_add_def)
qed

lemma reorganize_configs_single:
  assumes "length (BUILD_CONFIGS env) \<le> length v"
  shows "reorganize_configs env [v] = Inr (map (\<lambda>c. [c]) (take (length (BUILD_CONFIGS env)) v))"
proof -
  have "filter (\<lambda>config. config \<noteq> []) (map (\<lambda>c. [c]) (take (length (BUILD_CONFIGS env)) v))
          = map (\<lambda>c. [c]) (take (length (BUILD_CONFIGS env)) v)"
    by (simp add: filter_map comp_def)
  then show ?thesis
    using assms by (simp add: reorganize_configs_def add_config_eq zip_replicate_empty)
qed

lemma group_devices_single:
  assumes "distinct config_value"
  shows "group_devices env what (devices_of_type env ty config_value) (PySet [c]) = Inr (PySet [c])"
proof -
  let ?d = "devices_of_type env ty config_value"
  have d: "distinct ?d" using assms by (simp add: devices_of_type_def)
  have "\<not> (1 < length ?d \<and> set ?d \<subseteq> set [c])"
  proof
    assume h: "1 < length ?d \<and> set ?d \<subseteq> set [c]"
    then have "card (set ?d) \<le> card (set [c])" by (intro card_mono) simp_all
    then have "length ?d \<le> 1" using d by (simp add: distinct_card)
    with h show False by simp
  qed
  then show ?thesis by (simp add: group_devices_def elems_def)
qed

lemma combine_config_single:
  assumes "k < length (BUILD_CONFIGS env)" and "distinct config_value"
  shows "\<exists>r. combine_config env [c] config_value k = Inr r"
proof -
  have g1: "group_devices env ''FTL Devices'' (devices_of_type env ''real'' config_value)
              (PySet [c]) = Inr (PySet [c])"
    using assms(2) by (rule group_devices_single)
  have g2: "group_devices env ''Virtual Devices'' (devices_of_type env ''virtual'' config_value)
              (PySet [c]) = Inr (PySet [c])"
    using assms(2) by (rule group_devices_single)
  show ?thesis
  proof (cases "1 < length config_value")
    case True
    then have ne: "length [c] \<noteq> length config_value" by simp
    show ?thesis
      using assms(1) True ne by (simp add: combine_config_def Let_def g1 g2)
  next
    case False
    then show ?thesis
      using assms(1) by (simp add: combine_config_def Let_def g1 g2)
  qed
qed

lemma combine_configs_from_single:
  assumes "i + length cs \<le> length all_configs"
    and "i + length cs \<le> length (BUILD_CONFIGS env)"
    and "\<forall>s \<in> set all_configs. distinct s"
  shows "\<exists>rs. combine_configs_from env i (map (\<lambda>c. [c]) cs) all_configs = Inr rs"
  using assms
proof (induction cs arbitrary: i)
  case Nil
  then show ?case by simp
next
  case (Cons c cs)
  have i: "i < length all_configs" "i < length (BUILD_CONFIGS env)"
    using Cons.prems by simp_all
  then have "distinct (all_configs ! i)" using Cons.prems(3) by simp
  with i obtain r where r: "combine_config env [c] (all_configs ! i) i = Inr r"
    using combine_config_single by blast
  have "\<exists>rs. combine_configs_from env (Suc i) (map (\<lambda>c. [c]) cs) all_configs = Inr rs"
    using Cons.prems by (intro Cons.IH) simp_all
  then obtain rs where "combine_configs_from env (Suc i) (map (\<lambda>c. [c]) cs) all_configs = Inr rs"
    by blast
  with i r show ?case by simp
qed

lemma category_label_single:
  assumes "length (BUILD_CONFIGS env) \<le> length v"
    and "length all_configs = length (BUILD_CONFIGS env)"
    and "\<forall>s \<in> set all_configs. distinct s"
  shows "\<exists>rs. category_label env kind what [v] all_configs
           = Inr (flat_config (map Lst ([kind] # [what] # rs)))"
proof -
  let ?n = "length (BUILD_CONFIGS env)"
  have "\<exists>rs. combine_configs_from env 0 (map (\<lambda>c. [c]) (take ?n v)) all_configs = Inr rs"
    using assms by (intro combine_configs_from_single) simp_all
  then obtain rs where "combine_configs_from env 0 (map (\<lambda>c. [c]) (take ?n v)) all_configs = Inr rs"
    by blast
  then have "category_label env kind what [v] all_configs
           = Inr (flat_config (map Lst ([kind] # [what] # rs)))"
    using assms(1) by (simp add: category_label_def reorganize_configs_single combine_configs_def)
  then show ?thesis by blast
qed

lemma join_Cons: "join sep (x # xs) = x @ (if xs = [] then [] else sep @ join sep xs)"
  by (cases xs) simp_all

lemma flat_config_prefix:
  "\<exists>tail. flat_config (Lst [''BUILD''] # Lst [''ERROR''] # rest) = ''[BUILD] [ERROR]'' @ tail"
  "\<exists>tail. flat_config (Lst [''TEST''] # Lst [''ERROR''] # rest) = ''[TEST] [ERROR]'' @ tail"
  "\<exists>tail. flat_config (Lst [''TEST''] # Lst [''FAILURE''] # rest) = ''[TEST] [FAILURE]'' @ tail"
  "\<exists>tail. flat_config (Lst [''TEST''] # Lst [''FLAKINESS''] # rest) = ''[TEST] [FLAKINESS]'' @ tail"
  by (simp_all add: flat_config_def join_Cons repr_str_def repr_char_def printable_def Let_def)

lemma reorganize_log_single:
  assumes "category_label env (category_kind cat) (category_what cat) [v] (universe_of cat tested)
             = Inr label"
  shows "reorganize_log env [(testapp, single_failure cat v)] tested
           = Inr [(testapp, [(label, [])])]"
  using assms
  by (cases cat)
     (simp_all add: reorganize_log_def add_category_def no_errors_def add_label_def setdefault_def)

lemma category_prefix_flat:
  "\<exists>tail. flat_config (map Lst ([category_kind cat] # [category_what cat] # rs))
            = category_prefix cat @ tail"
  using flat_config_prefix [of "map Lst rs"] by (cases cat) simp_all

lemma print_log_single:
  "print_log [(testapp, [(label, [])])]
     = [testapp @ '':'', ''  Errors and Failures (1):'', ''  - '' @ label]"
  by (simp add: print_log_def log_testapp_lines_def log_config_lines_def str_of_nat_digit
      digit_char_def)

lemma format_result_single:
  "format_result [(label, [])] space_char list_separator 0 = label @ list_separator"
  by (simp add: format_result_def format_entry_def set_add_def LIST_MAX_def ljust_def)

lemma headers_markdown:
  "sub_spaces ''&nbsp;'' TESTAPPS_HEADER = ''Failures''"
  "sub_spaces ''&nbsp;'' CONFIGS_HEADER = ''Configs''"
  by (simp_all add: sub_spaces_def TESTAPPS_HEADER_def CONFIGS_HEADER_def word_char_def)

lemma print_markdown_table_single:
  "print_markdown_table [(testapp, [(label, [])])]
     = [''| Failures | Configs |'', ''|----------|---------|'',
        ''| '' @ sub_spaces ''&nbsp;'' testapp @ '' | '' @ label @ ''<br/> |'']"
proof (cases "testapp = MISSING_LOG")
  case True
  then show ?thesis
    by (simp add: print_markdown_table_def print_table_def Let_def headers_markdown
        result_row_def format_result_single table_row_def rule_row_def ljust_def)
next
  case False
  then show ?thesis
    by (simp add: print_markdown_table_def print_table_def Let_def headers_markdown
        result_row_def format_result_single table_row_def rule_row_def ljust_def)
qed

lemma sub_spaces_no_space:
  "CHR '' '' \<notin> set s \<Longrightarrow> sub_spaces_from space_char after_word s = s"
  by (induction s arbitrary: after_word) auto

text \<open>
  C7 (as amended). Take a test application with exactly one failing configuration \<open>v\<close>,
  in one category, where \<open>reorganize_all_tested_configs\<close> returns for the tested
  vectors (each has a value for every axis of \<open>BUILD_CONFIGS\<close>) and \<open>v\<close> is one of the
  tested vectors of its kind. Then \<open>reorganize_log\<close> returns one entry for the
  application, with one label that starts with the label of the category; the log
  output is the line of the name followed by a colon, the line of the count and the line
  of the label; the Markdown table is the two header lines and one row with the name
  and the label, the name written with \<open>&nbsp;\<close> for every space between two word
  characters, so as it is when it holds no space.
\<close>

theorem single_failure_outputs:
  assumes "reorganize_all_tested_configs env raw = Inr tested"
    and "v \<in> set (universe_of cat raw)"
  shows "\<exists>label tail.
           label = category_prefix cat @ tail
         \<and> reorganize_log env [(testapp, single_failure cat v)] tested
             = Inr [(testapp, [(label, [])])]
         \<and> print_log [(testapp, [(label, [])])]
             = [testapp @ '':'', ''  Errors and Failures (1):'', ''  - '' @ label]
         \<and> print_markdown_table [(testapp, [(label, [])])]
             = [''| Failures | Configs |'', ''|----------|---------|'',
                ''| '' @ sub_spaces ''&nbsp;'' testapp @ '' | '' @ label @ ''<br/> |'']
         \<and> (CHR '' '' \<notin> set testapp \<longrightarrow> sub_spaces ''&nbsp;'' testapp = testapp)"
proof -
  have ns: "CHR '' '' \<notin> set testapp \<longrightarrow> sub_spaces ''&nbsp;'' testapp = testapp"
    by (simp add: sub_spaces_def sub_spaces_no_space)
  from assms(1) have "reorganize_configs env (build_configs raw) = Inr (build_configs tested)"
    and "reorganize_configs env (test_configs raw) = Inr (test_configs tested)"
    by (auto simp: reorganize_all_tested_configs_def split: sum.splits)
  then have u: "reorganize_configs env (universe_of cat raw) = Inr (universe_of cat tested)"
    by (cases cat) simp_all
  note r = reorganize_configs_Inr [OF u]
  have ne: "universe_of cat raw \<noteq> []" using assms(2) by auto
  have len: "length (BUILD_CONFIGS env) \<le> length v" using r assms(2) by simp
  have "\<exists>rs. category_label env (category_kind cat) (category_what cat) [v] (universe_of cat tested)
           = Inr (flat_config (map Lst ([category_kind cat] # [category_what cat] # rs)))"
    using len r ne by (intro category_label_single) simp_all
  then obtain rs where
    l: "category_label env (category_kind cat) (category_what cat) [v] (universe_of cat tested)
           = Inr (flat_config (map Lst ([category_kind cat] # [category_what cat] # rs)))"
    by blast
  obtain tail where t: "flat_config (map Lst ([category_kind cat] # [category_what cat] # rs))
            = category_prefix cat @ tail"
    using category_prefix_flat by blast
  show ?thesis
    using reorganize_log_single [OF l] t print_log_single print_markdown_table_single ns
    by metis
qed

theorem single_failure_outputs_witness:
  "\<exists>label tail.
     label = category_prefix BuildError @ tail
   \<and> reorganize_log \<lparr>BUILD_CONFIGS = [''os''], TEST_DEVICES = (\<lambda>_. None), set_iter = (\<lambda>s. s)\<rparr>
         [(''admob'', single_failure BuildError [''ubuntu''])]
         \<lparr>build_configs = [[''ubuntu'', ''macos'']], test_configs = []\<rparr>
       = Inr [(''admob'', [(label, [])])]
   \<and> print_log [(''admob'', [(label, [])])]
       = [''admob'' @ '':'', ''  Errors and Failures (1):'', ''  - '' @ label]
   \<and> print_markdown_table [(''admob'', [(label, [])])]
       = [''| Failures | Configs |'', ''|----------|---------|'',
          ''| '' @ sub_spaces ''&nbsp;'' ''admob'' @ '' | '' @ label @ ''<br/> |'']
   \<and> (CHR '' '' \<notin> set ''admob'' \<longrightarrow> sub_spaces ''&nbsp;'' ''admob'' = ''admob'')"
proof (rule single_failure_outputs)
  show "reorganize_all_tested_configs
          \<lparr>BUILD_CONFIGS = [''os''], TEST_DEVICES = (\<lambda>_. None), set_iter = (\<lambda>s. s)\<rparr>
          \<lparr>build_configs = [[''ubuntu''], [''macos'']], test_configs = []\<rparr>
        = Inr \<lparr>build_configs = [[''ubuntu'', ''macos'']], test_configs = []\<rparr>"
    by (simp add: reorganize_all_tested_configs_def reorganize_configs_def set_add_def)
  show "[''ubuntu''] \<in> set (universe_of BuildError
          \<lparr>build_configs = [[''ubuntu''], [''macos'']], test_configs = []\<rparr>)"
    by simp
qed

lemmas run_defs =
  summarize_logs_def read_build_log_def read_test_log_def failed_def flaky_def record_in_def
  no_errors_def reorganize_all_tested_configs_def MISSING_LOG_def

lemmas print_defs =
  print_markdown_table_def print_table_def result_row_def table_row_def rule_row_def
  format_result_def format_entry_def LIST_MAX_def ljust_def sub_spaces_def word_char_def
  TESTAPPS_HEADER_def CONFIGS_HEADER_def print_log_def log_testapp_lines_def
  log_config_lines_def

text \<open>
  C7 as stated says that the table contains the name. In the Markdown table, the only
  table \<open>summarize_logs\<close> prints, a name with a space between two word characters is
  not there as it is: the space is replaced by \<open>&nbsp;\<close>.
\<close>

theorem single_failure_outputs_counterexample:
  "summarize_logs \<lparr>BUILD_CONFIGS = [''os''], TEST_DEVICES = (\<lambda>_. None), set_iter = (\<lambda>s. s)\<rparr>
     ''logs''
     [\<lparr>file_name = ''logs/build-results-ubuntu.log.json'',
       log_text = Json [(''errors'', [''my app''])]\<rparr>]
     [] True False
   = Inr (False, Some (''| Failures | Configs |'' @ [CHR 0x0A] @ ''|----------|---------|''
          @ [CHR 0x0A] @ ''| my&nbsp;app | [BUILD] [ERROR] [ubuntu]<br/> |''))
   \<and> \<not> substring ''my app''
         (''| Failures | Configs |'' @ [CHR 0x0A] @ ''|----------|---------|''
          @ [CHR 0x0A] @ ''| my&nbsp;app | [BUILD] [ERROR] [ubuntu]<br/> |'')"
proof
  show "summarize_logs \<lparr>BUILD_CONFIGS = [''os''], TEST_DEVICES = (\<lambda>_. None), set_iter = (\<lambda>s. s)\<rparr>
     ''logs''
     [\<lparr>file_name = ''logs/build-results-ubuntu.log.json'',
       log_text = Json [(''errors'', [''my app''])]\<rparr>]
     [] True False
   = Inr (False, Some (''| Failures | Configs |'' @ [CHR 0x0A] @ ''|----------|---------|''
          @ [CHR 0x0A] @ ''| my&nbsp;app | [BUILD] [ERROR] [ubuntu]<br/> |''))"
    by (simp add: run_defs name_defs model_defs print_defs)
  show "\<not> substring ''my app''
         (''| Failures | Configs |'' @ [CHR 0x0A] @ ''|----------|---------|''
          @ [CHR 0x0A] @ ''| my&nbsp;app | [BUILD] [ERROR] [ubuntu]<br/> |'')"
    by code_simp
qed

end
